theory Spec2Isabelle
  imports Main "HOL-Library.Sublist"
begin

section \<open>Strings and the engine's built-ins\<close>

text \<open>
  A JavaScript string is a sequence of UTF-16 code units; \<open>length\<close>, \<open>slice\<close>,
  \<open>indexOf\<close>, \<open>trim\<close> and regular expressions without the \<open>u\<close> flag work on code
  units. ASCII literals of the source are written \<open>js ''...''\<close>; the Japanese literals
  are written as lists of code units.
\<close>

type_synonym jstring = "nat list"

definition js :: "string \<Rightarrow> jstring" where
  "js s = map of_char s"

text \<open>
  A value read by \<open>JSON.parse\<close>; \<open>'n\<close> is the type of numbers. An object is the list
  of its properties.
\<close>

datatype 'n json =
    JNull
  | JBool bool
  | JNum 'n
  | JStr jstring
  | JArr "'n json list"
  | JObj "(jstring \<times> 'n json) list"

text \<open>
  The Unicode tables behind \<open>String.prototype.normalize\<close>, \<open>toLowerCase\<close> and the
  property escapes \<open>\p{Script=...}\<close> of regular expressions, the conversions between
  numbers and strings (\<open>Number\<close>, string interpolation, \<open>toLocaleString("ja-JP")\<close>)
  and \<open>JSON.parse\<close> (\<open>None\<close> when it throws) are not part of the repository: the
  engine that runs the code brings them, in the version of the Unicode standard it was
  built with. They are taken as a parameter, so every universally quantified theorem
  below holds for whatever the engine computes. \<open>cjkScript\<close> is the engine's answer to
  whether a code point has Script=Han, Script=Hiragana or Script=Katakana.
\<close>

record 'n builtins =
  normalizeNFKC :: "jstring \<Rightarrow> jstring"
  toLowerCase :: "jstring \<Rightarrow> jstring"
  toNumber :: "jstring \<Rightarrow> 'n"
  numToString :: "'n \<Rightarrow> jstring"
  toLocaleString :: "'n \<Rightarrow> jstring"
  parseJSON :: "jstring \<Rightarrow> 'n json option"
  cjkScript :: "nat \<Rightarrow> bool"

text \<open>Character classes are lists of inclusive code ranges.\<close>

definition in_ranges :: "(nat \<times> nat) list \<Rightarrow> nat \<Rightarrow> bool" where
  "in_ranges rs c = list_ex (\<lambda>(lo, hi). lo \<le> c \<and> c \<le> hi) rs"

text \<open>The class \<open>\s\<close> (also the characters removed by \<open>trim\<close>).\<close>

definition ws_ranges :: "(nat \<times> nat) list" where
  "ws_ranges = [(0x9, 0xD), (0x20, 0x20), (0xA0, 0xA0), (0x1680, 0x1680), (0x2000, 0x200A),
     (0x2028, 0x2029), (0x202F, 0x202F), (0x205F, 0x205F), (0x3000, 0x3000), (0xFEFF, 0xFEFF)]"

definition isSpace :: "nat \<Rightarrow> bool" where
  "isSpace c = in_ranges ws_ranges c"

definition trim :: "jstring \<Rightarrow> jstring" where
  "trim s = rev (dropWhile isSpace (rev (dropWhile isSpace s)))"

text \<open>\<open>replace(/\s+/g, " ")\<close>: every maximal run of whitespace becomes one space.\<close>

function collapseSpaces :: "jstring \<Rightarrow> jstring" where
  "collapseSpaces [] = []"
| "collapseSpaces (c # cs) =
     (if isSpace c then 0x20 # collapseSpaces (dropWhile isSpace cs)
      else c # collapseSpaces cs)"
  by pat_completeness auto
termination
  by (relation "measure length") (auto intro: le_imp_less_Suc length_dropWhile_le)

definition isHighSurrogate :: "nat \<Rightarrow> bool" where
  "isHighSurrogate u = (0xD800 \<le> u \<and> u \<le> 0xDBFF)"

definition isLowSurrogate :: "nat \<Rightarrow> bool" where
  "isLowSurrogate u = (0xDC00 \<le> u \<and> u \<le> 0xDFFF)"

definition pairCodePoint :: "nat \<Rightarrow> nat \<Rightarrow> nat" where
  "pairCodePoint hi lo = 0x10000 + (hi - 0xD800) * 0x400 + (lo - 0xDC00)"

text \<open>
  The class \<open>[\p{Script=Han}\p{Script=Hiragana}\p{Script=Katakana}]\<close>, on code points
  (with the \<open>u\<close> flag a surrogate pair is read as one code point, and a surrogate
  that stands alone as the code point of its own value). The engine's table is read at
  the code points that are neither whitespace nor surrogates: in every version of the
  standard the characters of \<open>\s\<close> have Script=Common and the surrogates have no script.
\<close>

definition isSurrogate :: "nat \<Rightarrow> bool" where
  "isSurrogate u = (0xD800 \<le> u \<and> u \<le> 0xDFFF)"

definition isCJK :: "'n builtins \<Rightarrow> nat \<Rightarrow> bool" where
  "isCJK B cp = (cjkScript B cp \<and> \<not> isSpace cp \<and> \<not> isSurrogate cp)"

text \<open>
  The lookbehind \<open>(?<=[\p{Script=Han}\p{Script=Hiragana}\p{Script=Katakana}])\<close>: the
  code point that ends just before the position. The argument is the text before the
  position, nearest code unit first.
\<close>

fun cjkBefore :: "'n builtins \<Rightarrow> jstring \<Rightarrow> bool" where
  "cjkBefore B [] = False"
| "cjkBefore B [u] = isCJK B u"
| "cjkBefore B (lo # hi # _) =
     (if isLowSurrogate lo \<and> isHighSurrogate hi then isCJK B (pairCodePoint hi lo) else isCJK B lo)"

text \<open>The lookahead \<open>(?=[...])\<close>: the code point that starts at the position.\<close>

fun cjkAfter :: "'n builtins \<Rightarrow> jstring \<Rightarrow> bool" where
  "cjkAfter B [] = False"
| "cjkAfter B [u] = isCJK B u"
| "cjkAfter B (hi # lo # _) =
     (if isHighSurrogate hi \<and> isLowSurrogate lo then isCJK B (pairCodePoint hi lo) else isCJK B hi)"

text \<open>
  \<open>replace(/(?<=[CJK])\s+(?=[CJK])/gu, "")\<close>. A match starts where whitespace follows
  a CJK code point; \<open>\s+\<close> takes the whole run, and giving characters back cannot help,
  because the lookahead would then see whitespace. So a run is deleted exactly when a CJK
  code point stands on both sides of it. The first argument is the text already passed,
  nearest code unit first.
\<close>

function stripCjkSpaces :: "'n builtins \<Rightarrow> jstring \<Rightarrow> jstring \<Rightarrow> jstring" where
  "stripCjkSpaces B prev [] = []"
| "stripCjkSpaces B prev (c # cs) =
     (if isSpace c then
        (let run = c # takeWhile isSpace cs; rest = dropWhile isSpace cs in
         if cjkBefore B prev \<and> cjkAfter B rest then stripCjkSpaces B (rev run @ prev) rest
         else run @ stripCjkSpaces B (rev run @ prev) rest)
      else c # stripCjkSpaces B (c # prev) cs)"
  by pat_completeness auto
termination
  by (relation "measure (\<lambda>(B, b, s). length s)") (auto intro: le_imp_less_Suc length_dropWhile_le)

text \<open>\<open>sanitizeText\<close> of \<open>api/pdf-analyze/route.ts\<close>.\<close>

definition sanitizeText :: "'n builtins \<Rightarrow> jstring \<Rightarrow> jstring" where
  "sanitizeText B v = trim (collapseSpaces (stripCjkSpaces B [] (normalizeNFKC B v)))"

text \<open>\<open>sanitizeExtractedText\<close> of \<open>home/page.tsx\<close>: the same four steps.\<close>

definition sanitizeExtractedText :: "'n builtins \<Rightarrow> jstring \<Rightarrow> jstring" where
  "sanitizeExtractedText B v =
     (let normalized = normalizeNFKC B v
      in trim (collapseSpaces (stripCjkSpaces B [] normalized)))"

section \<open>Properties of normalized text\<close>

text \<open>
  What the lookbehind needs to know of the text before a position: whether a CJK code
  point ends there, and the high surrogate that ends there, if any. \<open>scanStep\<close> moves
  this knowledge over one more code unit.
\<close>

type_synonym scan = "bool \<times> nat option"








section \<open>Regular expressions\<close>

text \<open>
  The patterns of the source that need backtracking are kept as syntax trees and run by
  a backtracking matcher: \<open>rmatch r s\<close> lists, in the engine's order of preference, the
  ways \<open>r\<close> can match a prefix of \<open>s\<close>, each with the texts of its capturing groups
  and the rest of the input. Repetition is greedy; an iteration that consumes nothing is
  not taken (no pattern of the source repeats a body that can match the empty string).
\<close>

datatype re =
    Cls "(nat \<times> nat) list"
  | Seq re re
  | Alt re re
  | Rep nat "nat option" re
  | Cap re

primrec re_size :: "re \<Rightarrow> nat" where
  "re_size (Cls rs) = 1"
| "re_size (Seq a b) = Suc (re_size a + re_size b)"
| "re_size (Alt a b) = Suc (re_size a + re_size b)"
| "re_size (Rep m n a) = Suc (re_size a)"
| "re_size (Cap a) = Suc (re_size a)"

function rmatch :: "re \<Rightarrow> jstring \<Rightarrow> (jstring list \<times> jstring) list" where
  "rmatch (Cls rs) s =
     (case s of [] \<Rightarrow> [] | c # t \<Rightarrow> if in_ranges rs c then [([], t)] else [])"
| "rmatch (Seq a b) s =
     concat (map (\<lambda>(c1, s1). map (\<lambda>(c2, s2). (c1 @ c2, s2)) (rmatch b s1)) (rmatch a s))"
| "rmatch (Alt a b) s = rmatch a s @ rmatch b s"
| "rmatch (Cap a) s =
     map (\<lambda>(c, s'). (take (length s - length s') s # c, s')) (rmatch a s)"
| "rmatch (Rep m n a) s =
     (if n = Some 0 then [([], s)]
      else concat (map (\<lambda>(c1, s1).
               if length s1 < length s
               then map (\<lambda>(c2, s2). (c1 @ c2, s2))
                      (rmatch (Rep (m - 1) (map_option (\<lambda>k. k - 1) n) a) s1)
               else []) (rmatch a s))
           @ (if m = 0 then [([], s)] else []))"
  by pat_completeness auto
termination
  by (relation "inv_image (less_than <*lex*> less_than) (\<lambda>(r, s). (re_size r, length s))") auto

text \<open>
  The two inner loops of \<open>rmatch\<close>, named: continuing every partial match with the
  next pattern, and with one more iteration of a repetition.
\<close>

definition thenMatch :: "re \<Rightarrow> (jstring list \<times> jstring) list \<Rightarrow> (jstring list \<times> jstring) list" where
  "thenMatch b ms =
     concat (map (\<lambda>(c1, s1). map (\<lambda>(c2, s2). (c1 @ c2, s2)) (rmatch b s1)) ms)"

definition thenRepeat ::
  "nat \<Rightarrow> nat option \<Rightarrow> re \<Rightarrow> jstring \<Rightarrow> (jstring list \<times> jstring) list
     \<Rightarrow> (jstring list \<times> jstring) list" where
  "thenRepeat m n a s ms =
     concat (map (\<lambda>(c1, s1).
               if length s1 < length s
               then map (\<lambda>(c2, s2). (c1 @ c2, s2))
                      (rmatch (Rep (m - 1) (map_option (\<lambda>k. k - 1) n) a) s1)
               else []) ms)"

text \<open>A literal character, \<open>x?\<close>, \<open>x*\<close>, \<open>x+\<close> and literal text.\<close>

definition Chr :: "nat \<Rightarrow> re" where
  "Chr c = Cls [(c, c)]"

definition Opt :: "re \<Rightarrow> re" where
  "Opt r = Rep 0 (Some 1) r"

definition Star :: "re \<Rightarrow> re" where
  "Star r = Rep 0 None r"

definition Plus :: "re \<Rightarrow> re" where
  "Plus r = Rep 1 None r"

definition reSpace :: re where
  "reSpace = Cls ws_ranges"

definition reDigit :: re where
  "reDigit = Cls [(0x30, 0x39)]"

text \<open>
  \<open>RegExp.prototype.exec\<close> from a given position: the first position at or after it
  where the pattern matches, with the preferred match there.
\<close>

fun search :: "re \<Rightarrow> jstring \<Rightarrow> (jstring list \<times> jstring) option" where
  "search r [] = (case rmatch r [] of [] \<Rightarrow> None | m # _ \<Rightarrow> Some m)"
| "search r (c # cs) = (case rmatch r (c # cs) of [] \<Rightarrow> search r cs | m # _ \<Rightarrow> Some m)"

definition regexTest :: "re \<Rightarrow> jstring \<Rightarrow> bool" where
  "regexTest r s = (search r s \<noteq> None)"

section \<open>The analysis route: \<open>api/pdf-analyze/route.ts\<close>\<close>

record 'n PricingPlan =
  planName :: jstring
  priceMonthlyYen :: "'n option"
  planNote :: jstring

record 'n AnalyzeResult =
  summary :: jstring
  plans :: "'n PricingPlan list"

text \<open>The sentinel summary (U+6982 U+8981 U+3092 ... U+3002) and the default plan name
  (U+30D7 U+30E9 U+30F3).\<close>

definition noSummaryText :: jstring where
  "noSummaryText = [0x6982, 0x8981, 0x3092, 0x62BD, 0x51FA, 0x3067, 0x304D, 0x307E, 0x305B,
     0x3093, 0x3067, 0x3057, 0x305F, 0x3002]"

definition defaultPlanName :: jstring where
  "defaultPlanName = [0x30D7, 0x30E9, 0x30F3]"

fun seqs :: "re list \<Rightarrow> re" where
  "seqs [] = Rep 0 (Some 0) (Cls [])"
| "seqs [r] = r"
| "seqs (r # rs) = Seq r (seqs rs)"

text \<open>
  The class of the plan name: \<open>A-Z\<close>, \<open>a-z\<close>, U+3041 to U+3093 (hiragana), U+30A1 to
  U+30F6 (katakana), U+4E00 to U+9FA0 (kanji), U+30FC, U+30FB and \<open>\s\<close>.
\<close>

definition planNameClass :: re where
  "planNameClass = Cls ([(0x41, 0x5A), (0x61, 0x7A), (0x3041, 0x3093), (0x30A1, 0x30F6),
     (0x4E00, 0x9FA0), (0x30FC, 0x30FC), (0x30FB, 0x30FB)] @ ws_ranges)"

text \<open>
  \<open>/([...]{1,20})\s*([0-9]{2,6}(?:,[0-9]{3})*)\s*Y\s*\/?\s*M/g\<close>, where \<open>Y\<close> is U+5186
  (yen) and \<open>M\<close> is U+6708 (month).
\<close>

definition planRegex :: re where
  "planRegex = seqs
     [Cap (Rep 1 (Some 20) planNameClass),
      Star reSpace,
      Cap (Seq (Rep 2 (Some 6) reDigit) (Star (Seq (Chr 0x2C) (Rep 3 (Some 3) reDigit)))),
      Star reSpace, Chr 0x5186, Star reSpace, Opt (Chr 0x2F), Star reSpace, Chr 0x6708]"

text \<open>\<open>match[k + 1]\<close>.\<close>

definition capture :: "jstring list \<Rightarrow> nat \<Rightarrow> jstring" where
  "capture caps k = (if k < length caps then caps ! k else [])"

text \<open>A \<open>Map\<close> keeps its entries in insertion order.\<close>

type_synonym 'n plansMap = "(jstring \<times> 'n PricingPlan) list"

definition mapHas :: "'n plansMap \<Rightarrow> jstring \<Rightarrow> bool" where
  "mapHas m k = list_ex (\<lambda>e. fst e = k) m"

fun mapSet :: "'n plansMap \<Rightarrow> jstring \<Rightarrow> 'n PricingPlan \<Rightarrow> 'n plansMap" where
  "mapSet [] k v = [(k, v)]"
| "mapSet (e # m) k v = (if fst e = k then (k, v) # m else e # mapSet m k v)"

text \<open>The body of the \<open>while\<close> loop of \<open>fallbackAnalyze\<close>.\<close>

definition planStep :: "'n builtins \<Rightarrow> jstring list \<Rightarrow> 'n plansMap \<Rightarrow> 'n plansMap" where
  "planStep B caps plansMap =
     (let name = collapseSpaces (trim (capture caps 0));
          price = toNumber B (filter (\<lambda>c. c \<noteq> 0x2C) (capture caps 1));
          key = name @ js ''-'' @ numToString B price
      in if \<not> mapHas plansMap key
         then mapSet plansMap key
                \<lparr>planName = (if name = [] then defaultPlanName else name),
                 priceMonthlyYen = Some price, planNote = []\<rparr>
         else plansMap)"

text \<open>
  The loop itself: \<open>exec\<close> resumes where the last match ended. A match that consumed
  nothing would leave \<open>lastIndex\<close> in place and the loop would never end; that outcome
  is the value \<open>None\<close>.
\<close>

function planLoop :: "'n builtins \<Rightarrow> jstring \<Rightarrow> 'n plansMap \<Rightarrow> 'n plansMap option" where
  "planLoop B s plansMap =
     (case search planRegex s of
        None \<Rightarrow> Some plansMap
      | Some (caps, rest) \<Rightarrow>
          if length rest < length s then planLoop B rest (planStep B caps plansMap) else None)"
  by pat_completeness auto
termination
  by (relation "measure (\<lambda>(B, s, m). length s)") auto

definition fallbackAnalyze :: "'n builtins \<Rightarrow> jstring \<Rightarrow> 'n AnalyzeResult option" where
  "fallbackAnalyze B text =
     (let normalized = sanitizeText B text;
          summary = (if take 180 normalized = [] then noSummaryText else take 180 normalized)
      in case planLoop B normalized [] of
           None \<Rightarrow> None
         | Some plansMap \<Rightarrow> Some \<lparr>summary = summary, plans = take 8 (map snd plansMap)\<rparr>)"

text \<open>
  \<open>String(v)\<close> for a value read from JSON that is not \<open>null\<close>: an array is its
  elements joined by commas, \<open>null\<close> elements as the empty string.
\<close>

fun intersperse :: "jstring \<Rightarrow> jstring list \<Rightarrow> jstring" where
  "intersperse sep [] = []"
| "intersperse sep [x] = x"
| "intersperse sep (x # y # xs) = x @ sep @ intersperse sep (y # xs)"

fun toStr :: "'n builtins \<Rightarrow> 'n json \<Rightarrow> jstring" where
  "toStr B JNull = js ''null''"
| "toStr B (JBool b) = (if b then js ''true'' else js ''false'')"
| "toStr B (JNum n) = numToString B n"
| "toStr B (JStr s) = s"
| "toStr B (JArr vs) =
     intersperse (js '','') (map (\<lambda>v. if v = JNull then [] else toStr B v) vs)"
| "toStr B (JObj fs) = js ''[object Object]''"

text \<open>
  Reading the property \<open>k\<close> of a value that is not \<open>null\<close>: \<open>None\<close> is \<open>undefined\<close>.
  Of the properties the source reads (\<open>summary\<close>, \<open>plans\<close>, \<open>name\<close>,
  \<open>priceMonthlyYen\<close>, \<open>note\<close>, \<open>url\<close>, \<open>text\<close>, \<open>fileName\<close>) only an object has any.
\<close>

definition getProp :: "'n json \<Rightarrow> jstring \<Rightarrow> 'n json option" where
  "getProp v k = (case v of JObj fs \<Rightarrow> map_of fs k | _ \<Rightarrow> None)"

text \<open>\<open>String(x ?? "")\<close>.\<close>

definition stringOrEmpty :: "'n builtins \<Rightarrow> 'n json option \<Rightarrow> jstring" where
  "stringOrEmpty B x = (case x of None \<Rightarrow> [] | Some JNull \<Rightarrow> [] | Some v \<Rightarrow> toStr B v)"

text \<open>
  One step of \<open>parsed.plans.map(...)\<close> in \<open>safeParseAnalyze\<close>; reading a property of a
  \<open>null\<close> element throws, which is the value \<open>None\<close>.
\<close>

definition readPlan :: "'n builtins \<Rightarrow> 'n json \<Rightarrow> 'n PricingPlan option" where
  "readPlan B plan =
     (if plan = JNull then None
      else Some \<lparr>planName = trim (stringOrEmpty B (getProp plan (js ''name''))),
                 priceMonthlyYen =
                   (case getProp plan (js ''priceMonthlyYen'') of Some (JNum n) \<Rightarrow> Some n | _ \<Rightarrow> None),
                 planNote = trim (stringOrEmpty B (getProp plan (js ''note'')))\<rparr>)"

fun readPlans :: "'n builtins \<Rightarrow> 'n json list \<Rightarrow> 'n PricingPlan list option" where
  "readPlans B [] = Some []"
| "readPlans B (v # vs) =
     (case readPlan B v of
        None \<Rightarrow> None
      | Some p \<Rightarrow> (case readPlans B vs of None \<Rightarrow> None | Some ps \<Rightarrow> Some (p # ps)))"

text \<open>
  \<open>safeParseAnalyze\<close>. A parsed value that is not an object fails one of the three tests
  of the first \<open>if\<close>: it is falsy, or it has no \<open>summary\<close>. Every exception ends in the
  \<open>catch\<close>, which returns \<open>null\<close>.
\<close>

definition safeParseAnalyze :: "'n builtins \<Rightarrow> jstring \<Rightarrow> 'n AnalyzeResult option" where
  "safeParseAnalyze B raw =
     (case parseJSON B raw of
        Some (JObj fs) \<Rightarrow>
          (case (map_of fs (js ''summary''), map_of fs (js ''plans'')) of
             (Some (JStr parsedSummary), Some (JArr parsedPlans)) \<Rightarrow>
               (case readPlans B parsedPlans of
                  None \<Rightarrow> None
                | Some ps \<Rightarrow>
                    Some \<lparr>summary = trim parsedSummary,
                          plans = filter (\<lambda>plan. length (planName plan) > 0) ps\<rparr>)
           | _ \<Rightarrow> None)
      | _ \<Rightarrow> None)"

text \<open>\<open>outputText.match(/\{[\s\S]*\}/)?.[0]\<close>\<close>

definition jsonLikeRegex :: re where
  "jsonLikeRegex = Cap (seqs [Chr 0x7B, Star (Cls [(0, 0xFFFF)]), Chr 0x7D])"

definition jsonLike :: "jstring \<Rightarrow> jstring option" where
  "jsonLike outputText =
     (case search jsonLikeRegex outputText of None \<Rightarrow> None | Some (caps, rest) \<Rightarrow> Some (capture caps 0))"

text \<open>
  What the route handler meets outside the repository: the request body
  (\<open>None\<close> when \<open>request.json()\<close> throws), the configured credential, and the remote
  model: the call throws, answers with a status that is not ok, or answers with a text
  (\<open>output_text\<close>, or the \<open>text\<close> parts of \<open>output\<close> joined).
\<close>

datatype upstream = Throws | NotOk | OutputText jstring

record 'n analyzeEnv =
  requestBody :: "'n json option"
  apiKey :: "jstring option"
  remoteModel :: upstream

datatype 'n analyzeResponse =
    AnalyzeJson nat "'n AnalyzeResult"
  | ErrorJson nat jstring

text \<open>
  \<open>POST\<close> of \<open>api/pdf-analyze/route.ts\<close>. \<open>body.text\<close> must be a string or absent for
  \<open>sanitizeText\<close> not to throw; every exception ends in the outer \<open>catch\<close>. The prompt
  sent to the model does not influence the handler's own steps and is left out.
\<close>

definition caught :: "'n analyzeResponse" where
  "caught = AnalyzeJson 200 \<lparr>summary = noSummaryText, plans = []\<rparr>"

text \<open>\<open>NextResponse.json(fallbackAnalyze(text))\<close>; \<open>None\<close> if the loop never ends.\<close>

definition respondFallback :: "'n builtins \<Rightarrow> jstring \<Rightarrow> 'n analyzeResponse option" where
  "respondFallback B text =
     (case fallbackAnalyze B text of None \<Rightarrow> None | Some r \<Rightarrow> Some (AnalyzeJson 200 r))"

definition bodyText :: "'n json \<Rightarrow> jstring option" where
  "bodyText body =
     (case getProp body (js ''text'') of
        None \<Rightarrow> Some [] | Some JNull \<Rightarrow> Some [] | Some (JStr t) \<Rightarrow> Some t | _ \<Rightarrow> None)"

definition analyzePOST :: "'n builtins \<Rightarrow> 'n analyzeEnv \<Rightarrow> 'n analyzeResponse option" where
  "analyzePOST B env =
     (case requestBody env of
        None \<Rightarrow> Some caught
      | Some JNull \<Rightarrow> Some caught
      | Some body \<Rightarrow>
          (case bodyText body of
             None \<Rightarrow> Some caught
           | Some raw \<Rightarrow>
               (let text = sanitizeText B raw in
                if text = [] then Some (ErrorJson 400 (js ''text is required''))
                else if apiKey env = None \<or> apiKey env = Some [] then respondFallback B text
                else (case remoteModel env of
                        Throws \<Rightarrow> Some caught
                      | NotOk \<Rightarrow> respondFallback B text
                      | OutputText outputText \<Rightarrow>
                          (case safeParseAnalyze B outputText of
                             Some direct \<Rightarrow> Some (AnalyzeJson 200 direct)
                           | None \<Rightarrow>
                               (case jsonLike outputText of
                                  None \<Rightarrow> respondFallback B text
                                | Some found \<Rightarrow>
                                    if found = [] then respondFallback B text
                                    else (case safeParseAnalyze B found of
                                            Some recovered \<Rightarrow> Some (AnalyzeJson 200 recovered)
                                          | None \<Rightarrow> respondFallback B text)))))))"

section \<open>The chat page: \<open>home/page.tsx\<close>\<close>

record 'n SourceItem =
  sourceId :: jstring
  sourceName :: jstring
  sourceText :: jstring
  sourceSummary :: "jstring option"
  pricingPlans :: "'n PricingPlan list option"
  storagePath :: "jstring option"
  inheritedFromDocumentId :: "jstring option"
  createdAt :: "nat option"

text \<open>A string that is present and not empty (what \<open>if (x)\<close> and \<open>!x\<close> test).\<close>

definition truthy :: "jstring option \<Rightarrow> bool" where
  "truthy x = (case x of None \<Rightarrow> False | Some s \<Rightarrow> s \<noteq> [])"

definition normalizeText :: "'n builtins \<Rightarrow> jstring \<Rightarrow> jstring" where
  "normalizeText B v = trim (collapseSpaces (toLowerCase B v))"

text \<open>
  \<open>split(/(?<=Y\s*\/?\s*M)/g)\<close> of \<open>extractPriceLines\<close> (\<open>Y\<close> is U+5186, \<open>M\<close> is U+6708).
  The lookbehind reads the text before the position backwards, so it is the pattern
  written backwards, run on that text with the nearest code unit first. \<open>split\<close> cuts
  at every position inside the string where it holds.
\<close>

definition yenPerMonthBackwards :: re where
  "yenPerMonthBackwards = seqs [Chr 0x6708, Star reSpace, Opt (Chr 0x2F), Star reSpace, Chr 0x5186]"

definition afterYenPerMonth :: "jstring \<Rightarrow> bool" where
  "afterYenPerMonth prev = (rmatch yenPerMonthBackwards prev \<noteq> [])"

fun splitAfterPrice :: "jstring \<Rightarrow> jstring \<Rightarrow> jstring \<Rightarrow> jstring list" where
  "splitAfterPrice prev piece [] = [rev piece]"
| "splitAfterPrice prev piece (c # cs) =
     (if piece \<noteq> [] \<and> afterYenPerMonth prev
      then rev piece # splitAfterPrice (c # prev) [c] cs
      else splitAfterPrice (c # prev) (c # piece) cs)"

text \<open>\<open>/([0-9]{1,3}(?:,[0-9]{3})+|[0-9]{2,6})\s*Y\s*\/?\s*M/\<close>\<close>

definition priceLineRegex :: re where
  "priceLineRegex = seqs
     [Cap (Alt (Seq (Rep 1 (Some 3) reDigit) (Plus (Seq (Chr 0x2C) (Rep 3 (Some 3) reDigit))))
               (Rep 2 (Some 6) reDigit)),
      Star reSpace, Chr 0x5186, Star reSpace, Opt (Chr 0x2F), Star reSpace, Chr 0x6708]"

text \<open>\<open>Array.from(new Set(xs))\<close>: the first occurrence of every element, in order.\<close>

definition uniqueInOrder :: "'a list \<Rightarrow> 'a list" where
  "uniqueInOrder xs = rev (remdups (rev xs))"

definition extractPriceLines :: "'n builtins \<Rightarrow> jstring \<Rightarrow> jstring list" where
  "extractPriceLines B text =
     (let lines = filter (\<lambda>line. line \<noteq> [])
                    (map trim (splitAfterPrice [] [] (sanitizeExtractedText B text)));
          priceLike = filter (regexTest priceLineRegex) lines
      in take 5 (uniqueInOrder priceLike))"

text \<open>The fixed texts of \<open>buildAssistantReply\<close>, as code units.\<close>

definition uploadFirstText :: jstring where
  "uploadFirstText = [0x5148, 0x306B, 0x50, 0x44, 0x46, 0x3092, 0x30A2, 0x30C3, 0x30D7, 0x30ED,
     0x30FC, 0x30C9, 0x3057, 0x3066, 0x304F, 0x3060, 0x3055, 0x3044, 0x3002]"

definition noUsableText :: jstring where
  "noUsableText = [0x56DE, 0x7B54, 0x306B, 0x4F7F, 0x3048, 0x308B, 0x30C6, 0x30AD, 0x30B9, 0x30C8,
     0x3092, 0x898B, 0x3064, 0x3051, 0x3089, 0x308C, 0x307E, 0x305B, 0x3093, 0x3067, 0x3057,
     0x305F, 0x3002]"

definition priceInfoHeader :: jstring where
  "priceInfoHeader = [0x6599, 0x91D1, 0x60C5, 0x5831, 0x3A, 0xA]"

definition priceUnknownText :: jstring where
  "priceUnknownText = [0x4FA1, 0x683C, 0x4E0D, 0x660E]"

definition yenPerMonthText :: jstring where
  "yenPerMonthText = [0x5186, 0x2F, 0x6708]"

definition overviewInfix :: jstring where
  "overviewInfix = [0x20, 0x306E, 0x6982, 0x8981, 0x3A, 0x20]"

definition referPrefix :: jstring where
  "referPrefix = [0x300C]"

definition referSuffix :: jstring where
  "referSuffix = [0x300D, 0x3092, 0x53C2, 0x7167, 0x3A, 0x20]"

text \<open>The six words of the price question test, \<open>/w1|w2|w3|w4|w5|w6/\<close>.\<close>

definition priceQuestionRegex :: re where
  "priceQuestionRegex =
     Alt (seqs (map Chr [0x6599, 0x91D1]))
    (Alt (seqs (map Chr [0x4FA1, 0x683C]))
    (Alt (seqs (map Chr [0x8CBB, 0x7528]))
    (Alt (seqs (map Chr [0x30D7, 0x30E9, 0x30F3]))
    (Alt (seqs (map Chr [0x6708, 0x984D]))
         (seqs (map Chr [0x5024, 0x6BB5]))))))"

text \<open>\<open>split(" ")\<close>: the second argument collects the current piece, backwards.\<close>

fun splitOn :: "nat \<Rightarrow> jstring \<Rightarrow> jstring \<Rightarrow> jstring list" where
  "splitOn sep piece [] = [rev piece]"
| "splitOn sep piece (c # cs) =
     (if c = sep then rev piece # splitOn sep [] cs else splitOn sep (c # piece) cs)"

definition questionTokens :: "'n builtins \<Rightarrow> jstring \<Rightarrow> jstring list" where
  "questionTokens B question =
     (let normalizedQuestion = normalizeText B question
      in filter (\<lambda>token. length token \<ge> 2) (map trim (splitOn 0x20 [] normalizedQuestion)))"

text \<open>\<open>indexOf\<close>: the first position of \<open>t\<close> in \<open>s\<close>, or \<open>-1\<close>.\<close>

fun indexOf :: "jstring \<Rightarrow> jstring \<Rightarrow> int" where
  "indexOf [] t = (if t = [] then 0 else - 1)"
| "indexOf (c # cs) t =
     (if prefix t (c # cs) then 0
      else (let r = indexOf cs t in if r < 0 then - 1 else r + 1))"

text \<open>\<open>s.slice(start, stop)\<close> for \<open>0 \<le> start\<close> and \<open>0 \<le> stop \<le> s.length\<close>.\<close>

definition sliceText :: "jstring \<Rightarrow> int \<Rightarrow> int \<Rightarrow> jstring" where
  "sliceText s start stop = take (nat (stop - start)) (drop (nat start) s)"

text \<open>The price branch: the key of the deduplicating \<open>Map\<close> and one output line.\<close>

definition planKey :: "'n builtins \<Rightarrow> 'n PricingPlan \<Rightarrow> jstring" where
  "planKey B plan =
     planName plan @ js ''-'' @
     (case priceMonthlyYen plan of None \<Rightarrow> js ''null'' | Some n \<Rightarrow> numToString B n)"

definition dedupePlans :: "'n builtins \<Rightarrow> 'n PricingPlan list \<Rightarrow> 'n PricingPlan list" where
  "dedupePlans B structuredPlans =
     map snd (foldl (\<lambda>m plan. mapSet m (planKey B plan) plan) [] structuredPlans)"

definition priceLine :: "'n builtins \<Rightarrow> 'n PricingPlan \<Rightarrow> jstring" where
  "priceLine B plan =
     (let amount = (case priceMonthlyYen plan of
                      Some n \<Rightarrow> toLocaleString B n @ yenPerMonthText
                    | None \<Rightarrow> priceUnknownText)
      in planName plan @ js '': '' @ amount @
         (if planNote plan \<noteq> [] then [0xFF08] @ planNote plan @ [0xFF09] else []))"

text \<open>The inner loop over the tokens: the score and the smallest hit index.\<close>

definition hitStep :: "jstring \<Rightarrow> int \<times> int \<Rightarrow> jstring \<Rightarrow> int \<times> int" where
  "hitStep normalizedSource acc token =
     (let score = fst acc; firstHitIndex = snd acc; index = indexOf normalizedSource token
      in if index \<ge> 0
         then (score + 1, if firstHitIndex < 0 \<or> index < firstHitIndex then index else firstHitIndex)
         else (score, firstHitIndex))"

definition scoreSource :: "jstring \<Rightarrow> jstring list \<Rightarrow> int \<times> int" where
  "scoreSource normalizedSource tokens = foldl (hitStep normalizedSource) (0, - 1) tokens"

record 'n best =
  bestSource :: "'n SourceItem option"
  bestScore :: int
  bestSnippet :: jstring

definition snippetOf :: "jstring \<Rightarrow> int \<Rightarrow> jstring" where
  "snippetOf text firstHitIndex =
     (if firstHitIndex \<ge> 0
      then (let start = max 0 (firstHitIndex - 80);
                stop = min (int (length text)) (firstHitIndex + 220)
            in trim (collapseSpaces (sliceText text start stop)))
      else trim (collapseSpaces (take 220 text)))"

text \<open>The body of the loop over the sources; \<open>continue\<close> leaves the state as it is.\<close>

definition considerSource :: "'n builtins \<Rightarrow> jstring list \<Rightarrow> 'n best \<Rightarrow> 'n SourceItem \<Rightarrow> 'n best" where
  "considerSource B tokens best source =
     (let normalizedSource = normalizeText B (sourceText source)
      in if normalizedSource = [] then best
         else (let hits = scoreSource normalizedSource tokens;
                   score = fst hits; firstHitIndex = snd hits
               in if score > bestScore best
                  then \<lparr>bestSource = Some source, bestScore = score,
                        bestSnippet = snippetOf (sourceText source) firstHitIndex\<rparr>
                  else best))"

definition pickBest :: "'n builtins \<Rightarrow> jstring list \<Rightarrow> 'n SourceItem list \<Rightarrow> 'n best" where
  "pickBest B tokens sources =
     foldl (considerSource B tokens) \<lparr>bestSource = None, bestScore = - 1, bestSnippet = []\<rparr> sources"

text \<open>
  The score in the spec's words: the number of tokens that occur in the normalized text
  of the source. A source whose normalized text is empty takes no part in the scoring.
\<close>

definition usable :: "'n builtins \<Rightarrow> 'n SourceItem \<Rightarrow> bool" where
  "usable B source = (normalizeText B (sourceText source) \<noteq> [])"

definition tokenOverlap :: "'n builtins \<Rightarrow> jstring list \<Rightarrow> 'n SourceItem \<Rightarrow> int" where
  "tokenOverlap B tokens source =
     int (length (filter (\<lambda>token. indexOf (normalizeText B (sourceText source)) token \<ge> 0) tokens))"

text \<open>
  \<open>ahead B tokens b earlier later\<close>: every scored source before \<open>b\<close> has a smaller
  score than \<open>b\<close>, and every scored source after it has at most the score of \<open>b\<close>.
  \<open>picked\<close> is the state of the loop after the sources \<open>cands\<close>.
\<close>

definition ahead ::
  "'n builtins \<Rightarrow> jstring list \<Rightarrow> 'n SourceItem \<Rightarrow> 'n SourceItem list \<Rightarrow> 'n SourceItem list \<Rightarrow> bool" where
  "ahead B tokens b earlier later \<longleftrightarrow>
     (\<forall>y \<in> set earlier. usable B y \<longrightarrow> tokenOverlap B tokens y < tokenOverlap B tokens b)
     \<and> (\<forall>y \<in> set later. usable B y \<longrightarrow> tokenOverlap B tokens y \<le> tokenOverlap B tokens b)"

definition picked :: "'n builtins \<Rightarrow> jstring list \<Rightarrow> 'n SourceItem list \<Rightarrow> 'n best \<Rightarrow> bool" where
  "picked B tokens cands best \<longleftrightarrow>
     (case bestSource best of
        None \<Rightarrow> bestScore best = - 1 \<and> (\<forall>y \<in> set cands. \<not> usable B y)
      | Some b \<Rightarrow> usable B b \<and> bestScore best = tokenOverlap B tokens b
          \<and> (\<exists>earlier later. cands = earlier @ b # later \<and> ahead B tokens b earlier later))"

definition structuredPlansOf :: "'n SourceItem list \<Rightarrow> 'n PricingPlan list" where
  "structuredPlansOf sources =
     filter (\<lambda>plan. length (planName plan) > 0)
       (concat (map (\<lambda>source. case pricingPlans source of None \<Rightarrow> [] | Some ps \<Rightarrow> ps) sources))"

definition generalReply :: "'n builtins \<Rightarrow> jstring list \<Rightarrow> 'n SourceItem list \<Rightarrow> jstring" where
  "generalReply B tokens sources =
     (let best = pickBest B tokens sources
      in case bestSource best of
           None \<Rightarrow> noUsableText
         | Some source \<Rightarrow>
             (let summaryText = (case sourceSummary source of None \<Rightarrow> [] | Some t \<Rightarrow> t)
              in if summaryText \<noteq> [] \<and> bestScore best \<le> 0
                 then sourceName source @ overviewInfix @ summaryText
                 else referPrefix @ sourceName source @ referSuffix @ bestSnippet best))"

definition buildAssistantReply :: "'n builtins \<Rightarrow> jstring \<Rightarrow> 'n SourceItem list \<Rightarrow> jstring" where
  "buildAssistantReply B question sources =
     (if length sources = 0 then uploadFirstText
      else (let tokens = questionTokens B question;
                isPriceQuestion = regexTest priceQuestionRegex question;
                structuredPlans = structuredPlansOf sources;
                prices = concat (map (\<lambda>source. extractPriceLines B (sourceText source)) sources)
            in if isPriceQuestion \<and> length structuredPlans > 0
               then priceInfoHeader @
                    intersperse [0xA] (map (priceLine B) (dedupePlans B structuredPlans))
               else if isPriceQuestion \<and> length prices > 0
               then priceInfoHeader @ intersperse [0xA] prices
               else generalReply B tokens sources))"

text \<open>The condition under which the price branch answers.\<close>

definition hasPriceAnswer :: "'n builtins \<Rightarrow> jstring \<Rightarrow> 'n SourceItem list \<Rightarrow> bool" where
  "hasPriceAnswer B q cands \<longleftrightarrow>
     regexTest priceQuestionRegex q
     \<and> (structuredPlansOf cands \<noteq> []
        \<or> concat (map (\<lambda>source. extractPriceLines B (sourceText source)) cands) \<noteq> [])"

section \<open>The handlers of the chat page\<close>

text \<open>
  The part of the component state the three handlers read, and the calls they make to
  the database, the blob store and the chat route. A handler returns the new state and
  the calls it issued, in order; whether a call succeeds is decided outside the
  repository and comes in as an argument.
\<close>

datatype ActiveChat = Personal | Team jstring

record TeamItem =
  teamId :: jstring
  teamName :: jstring
  memberUids :: "jstring list"

record 'n home =
  authUser :: "jstring option"
  activeChat :: ActiveChat
  teams :: "TeamItem list"
  selectedChatId :: "jstring option"
  selectedKnowledge :: "(jstring \<times> jstring) option"
  question :: jstring
  sending :: bool
  globalSources :: "'n SourceItem list"
  sources :: "'n SourceItem list"

definition selectedSource :: "'n home \<Rightarrow> 'n SourceItem option" where
  "selectedSource st =
     (case selectedKnowledge st of
        None \<Rightarrow> None
      | Some k \<Rightarrow> find (\<lambda>source. sourceId source = fst k) (sources st))"

definition selectedTeam :: "'n home \<Rightarrow> TeamItem option" where
  "selectedTeam st =
     (case activeChat st of
        Personal \<Rightarrow> None
      | Team tid \<Rightarrow> find (\<lambda>team. teamId team = tid) (teams st))"

definition isTeam :: "ActiveChat \<Rightarrow> bool" where
  "isTeam a = (case a of Personal \<Rightarrow> False | Team tid \<Rightarrow> True)"

definition scopeName :: "ActiveChat \<Rightarrow> jstring" where
  "scopeName a = (case a of Personal \<Rightarrow> js ''personal'' | Team tid \<Rightarrow> js ''team'')"

datatype collection =
    UserChats jstring
  | ChatMessages jstring jstring
  | ChatDocuments jstring jstring
  | UserDocuments jstring

datatype sender = User | Assistant

record 'n documentCopy =
  copyName :: jstring
  copyText :: jstring
  copySummary :: jstring
  copyPricingPlans :: "'n PricingPlan list"
  copyStoragePath :: jstring
  copyInheritedFromDocumentId :: jstring

datatype 'n call =
    AddChat collection jstring jstring jstring
  | AddMessage collection sender jstring
  | AddDocument collection "'n documentCopy"
  | TouchChat collection jstring
  | DeleteDocument collection jstring
  | DeleteObject jstring
  | FetchChatApi jstring "jstring option" "'n SourceItem list"
  | ConfirmDialog jstring
  | LogError jstring

text \<open>
  \<open>createNewChatThread\<close>; \<open>created\<close> is the id the database gives the new chat, \<open>None\<close>
  when \<open>addDoc\<close> throws.
\<close>

definition createNewChatThread ::
  "'n home \<Rightarrow> jstring option \<Rightarrow> 'n home \<times> 'n call list \<times> jstring option" where
  "createNewChatThread st created =
     (case authUser st of
        None \<Rightarrow> (st, [], None)
      | Some uid \<Rightarrow>
          if isTeam (activeChat st) \<and> selectedTeam st = None then (st, [], None)
          else (let team = selectedTeam st;
                    add = AddChat (UserChats uid) (scopeName (activeChat st))
                            (if isTeam (activeChat st)
                             then (case team of None \<Rightarrow> [] | Some t \<Rightarrow> teamId t) else [])
                            (if isTeam (activeChat st)
                             then (case team of None \<Rightarrow> [] | Some t \<Rightarrow> teamName t) else [])
                in case created of
                     None \<Rightarrow> (st, [add, LogError (js ''chat-create'')], None)
                   | Some cid \<Rightarrow> (st\<lparr>selectedChatId := Some cid\<rparr>, [add], Some cid)))"

definition ensureActiveChatId ::
  "'n home \<Rightarrow> jstring option \<Rightarrow> 'n home \<times> 'n call list \<times> jstring option" where
  "ensureActiveChatId st created =
     (if truthy (selectedChatId st) then (st, [], selectedChatId st)
      else createNewChatThread st created)"

text \<open>
  What \<open>handleAsk\<close> meets: the id of a chat created on the way, whether each write
  succeeds, and what \<open>generateAiReply\<close> returns (\<open>None\<close> when it throws: the request
  fails, the status is not ok, or the body cannot be read).
\<close>

record askEnv =
  createdChatId :: "jstring option"
  userMessageStored :: bool
  chatReply :: "jstring option"
  assistantMessageStored :: bool
  chatTouched :: bool
  fallbackMessageStored :: bool

definition askFailedText :: jstring where
  "askFailedText = [0x56DE, 0x7B54, 0x306E, 0x751F, 0x6210, 0x306B, 0x5931, 0x6557, 0x3057,
     0x307E, 0x3057, 0x305F, 0x3002, 0x3082, 0x3046, 0x4E00, 0x5EA6, 0x304A, 0x8A66, 0x3057,
     0x304F, 0x3060, 0x3055, 0x3044, 0x3002]"

text \<open>The \<open>catch\<close> of \<open>handleAsk\<close>.\<close>

definition askCatch :: "askEnv \<Rightarrow> jstring \<Rightarrow> jstring \<Rightarrow> 'n call list" where
  "askCatch env uid activeId =
     [LogError (js ''chat-send''), AddMessage (ChatMessages uid activeId) Assistant askFailedText]
     @ (if fallbackMessageStored env then [] else [LogError (js ''chat-fallback'')])"

text \<open>
  The reply of \<open>handleAsk\<close> and the calls made to get it: \<open>generateAiReply\<close> is called
  first, whatever the sources are; \<open>buildAssistantReply\<close> is used when it throws or
  returns the empty string.
\<close>

definition assistantReplyOf ::
  "'n builtins \<Rightarrow> askEnv \<Rightarrow> 'n home \<Rightarrow> jstring \<Rightarrow> 'n call list \<times> jstring" where
  "assistantReplyOf B env st userQuestion =
     (let targetSources = (case selectedSource st of Some source \<Rightarrow> [source] | None \<Rightarrow> sources st);
          fetch = FetchChatApi userQuestion (map_option sourceName (selectedSource st)) targetSources
      in case chatReply env of
           None \<Rightarrow> ([fetch, LogError (js ''chat-api'')], buildAssistantReply B userQuestion targetSources)
         | Some reply \<Rightarrow>
             ([fetch], if reply = [] then buildAssistantReply B userQuestion targetSources else reply))"

definition handleAsk :: "'n builtins \<Rightarrow> askEnv \<Rightarrow> 'n home \<Rightarrow> 'n home \<times> 'n call list" where
  "handleAsk B env st =
     (case authUser st of
        None \<Rightarrow> (st, [])
      | Some uid \<Rightarrow>
          if trim (question st) = [] \<or> sending st then (st, [])
          else (case ensureActiveChatId st (createdChatId env) of
                  (st1, calls1, None) \<Rightarrow> (st1, calls1)
                | (st1, calls1, Some activeId) \<Rightarrow>
                    (let userQuestion = trim (question st);
                         st2 = st1\<lparr>question := [], sending := False\<rparr>;
                         ask = AddMessage (ChatMessages uid activeId) User userQuestion
                     in if \<not> userMessageStored env then (st2, calls1 @ [ask] @ askCatch env uid activeId)
                        else (let answer = assistantReplyOf B env st1 userQuestion;
                                  calls2 = calls1 @ [ask] @ fst answer
                                           @ [AddMessage (ChatMessages uid activeId) Assistant (snd answer)]
                              in if \<not> assistantMessageStored env
                                 then (st2, calls2 @ askCatch env uid activeId)
                                 else if \<not> chatTouched env
                                 then (st2, calls2 @ [TouchChat (UserChats uid) activeId]
                                              @ askCatch env uid activeId)
                                 else (st2, calls2 @ [TouchChat (UserChats uid) activeId])))))"

text \<open>
  \<open>handleDeleteSource\<close>: the answer to the confirmation dialog and whether the two
  deletions succeed come from outside.
\<close>

record deleteEnv =
  confirmed :: bool
  objectDeleted :: bool
  documentDeleted :: bool

definition handleDeleteSource ::
  "deleteEnv \<Rightarrow> 'n home \<Rightarrow> 'n SourceItem \<Rightarrow> 'n home \<times> 'n call list" where
  "handleDeleteSource env st source =
     (case authUser st of
        None \<Rightarrow> (st, [])
      | Some uid \<Rightarrow>
          if isTeam (activeChat st) \<and> \<not> truthy (selectedChatId st) then (st, [])
          else if \<not> confirmed env then (st, [ConfirmDialog (sourceName source)])
          else (let deletingTeamLocalSource =
                      (isTeam (activeChat st) \<and> \<not> truthy (inheritedFromDocumentId source));
                    deletesObject =
                      (truthy (storagePath source)
                       \<and> (\<not> isTeam (activeChat st) \<or> deletingTeamLocalSource));
                    calls1 = ConfirmDialog (sourceName source)
                             # (if deletesObject
                                then [DeleteObject (case storagePath source of None \<Rightarrow> [] | Some p \<Rightarrow> p)]
                                else []);
                    remove = (if isTeam (activeChat st)
                              then DeleteDocument
                                     (ChatDocuments uid (case selectedChatId st of None \<Rightarrow> [] | Some c \<Rightarrow> c))
                                     (sourceId source)
                              else DeleteDocument (UserDocuments uid) (sourceId source))
                in if deletesObject \<and> \<not> objectDeleted env
                   then (st, calls1 @ [LogError (js ''delete-source'')])
                   else if \<not> documentDeleted env
                   then (st, calls1 @ [remove, LogError (js ''delete-source'')])
                   else (if map_option fst (selectedKnowledge st) = Some (sourceId source)
                         then st\<lparr>selectedKnowledge := None\<rparr> else st,
                         calls1 @ [remove])))"

text \<open>
  \<open>createTeamChatWithInheritance\<close>: \<open>createdTeamChatId\<close> is the id of the new chat
  (\<open>None\<close> when \<open>addDoc\<close> throws) and \<open>copyStored k\<close> tells whether the \<open>k\<close>-th copy is
  written. The timestamps are assigned by the server.
\<close>

record inheritEnv =
  createdTeamChatId :: "jstring option"
  copyStored :: "nat \<Rightarrow> bool"

definition inheritedCopy :: "'n SourceItem \<Rightarrow> 'n documentCopy" where
  "inheritedCopy source =
     \<lparr>copyName = sourceName source,
      copyText = sourceText source,
      copySummary = (case sourceSummary source of None \<Rightarrow> [] | Some t \<Rightarrow> t),
      copyPricingPlans = (case pricingPlans source of None \<Rightarrow> [] | Some ps \<Rightarrow> ps),
      copyStoragePath = (case storagePath source of None \<Rightarrow> [] | Some p \<Rightarrow> p),
      copyInheritedFromDocumentId = sourceId source\<rparr>"

text \<open>The \<open>for\<close> loop: \<open>True\<close> when every copy was written.\<close>

fun copyAll ::
  "inheritEnv \<Rightarrow> collection \<Rightarrow> nat \<Rightarrow> 'n SourceItem list \<Rightarrow> 'n call list \<times> bool" where
  "copyAll env coll k [] = ([], True)"
| "copyAll env coll k (source # rest) =
     (if copyStored env k
      then (let r = copyAll env coll (Suc k) rest
            in (AddDocument coll (inheritedCopy source) # fst r, snd r))
      else ([AddDocument coll (inheritedCopy source)], False))"

definition createTeamChatWithInheritance ::
  "inheritEnv \<Rightarrow> 'n home \<Rightarrow> jstring list \<Rightarrow> 'n home \<times> 'n call list \<times> jstring option" where
  "createTeamChatWithInheritance env st sourceIds =
     (case (authUser st, selectedTeam st) of
        (Some uid, Some team) \<Rightarrow>
          (let add = AddChat (UserChats uid) (js ''team'') (teamId team) (teamName team)
           in case createdTeamChatId env of
                None \<Rightarrow> (st, [add, LogError (js ''team-chat-create'')], None)
              | Some created \<Rightarrow>
                  (let inheritTargets =
                         filter (\<lambda>source. sourceId source \<in> set sourceIds) (globalSources st);
                       copies = copyAll env (ChatDocuments uid created) 0 inheritTargets
                   in if snd copies
                      then (st\<lparr>selectedChatId := Some created\<rparr>, add # fst copies, Some created)
                      else (st, add # fst copies @ [LogError (js ''team-chat-create'')], None)))
      | _ \<Rightarrow> (st, [], None))"

section \<open>The URL route\<close>

text \<open>
  The route handler that logs as \<open>api/url-extract\<close> (the third file of
  \<open>src/unnamed/part_000\<close>).
\<close>

text \<open>\<open>/^172\.(1[6-9]|2\d|3[0-1])\./\<close>: anchored at the start of the host.\<close>

definition private172Regex :: re where
  "private172Regex = seqs
     [Chr 0x31, Chr 0x37, Chr 0x32, Chr 0x2E,
      Cap (Alt (Seq (Chr 0x31) (Cls [(0x36, 0x39)]))
          (Alt (Seq (Chr 0x32) reDigit) (Seq (Chr 0x33) (Cls [(0x30, 0x31)])))),
      Chr 0x2E]"

definition isPrivateHostname :: "'n builtins \<Rightarrow> jstring \<Rightarrow> bool" where
  "isPrivateHostname B hostname =
     (let host = toLowerCase B hostname
      in if host = js ''localhost'' then True
         else if suffix (js ''.local'') host then True
         else if host = js ''0.0.0.0'' \<or> prefix (js ''127.'') host then True
         else if prefix (js ''10.'') host then True
         else if prefix (js ''192.168.'') host then True
         else if rmatch private172Regex host \<noteq> [] then True
         else False)"

text \<open>
  \<open>new URL(rawUrl)\<close> is the platform's parser: it throws (\<open>None\<close>) or gives the
  protocol, the host name and the serialised address.
\<close>

record parsedUrl =
  protocol :: jstring
  hostname :: jstring
  href :: jstring

datatype urlOutcome =
    Rejected nat jstring
  | Fetch jstring

text \<open>
  \<open>POST\<close> of the URL route, up to the moment it calls \<open>fetch\<close>: either it has answered
  with a status and an error, without any request, or it requests the page at the
  parsed address (the handling of the page that comes back is not part of this
  development). A body that is \<open>null\<close>, or a \<open>url\<close> that cannot be parsed, throws into
  the \<open>catch\<close>.
\<close>

definition urlPOST ::
  "'n builtins \<Rightarrow> (jstring \<Rightarrow> parsedUrl option) \<Rightarrow> 'n json option \<Rightarrow> urlOutcome" where
  "urlPOST B parseUrl request =
     (case request of
        None \<Rightarrow> Rejected 500 (js ''extract failed'')
      | Some JNull \<Rightarrow> Rejected 500 (js ''extract failed'')
      | Some body \<Rightarrow>
          (let rawUrl = trim (stringOrEmpty B (getProp body (js ''url'')))
           in if rawUrl = [] then Rejected 400 (js ''url is required'')
              else (case parseUrl rawUrl of
                      None \<Rightarrow> Rejected 500 (js ''extract failed'')
                    | Some parsed \<Rightarrow>
                        if protocol parsed \<notin> set [js ''http:'', js ''https:'']
                        then Rejected 400 (js ''http/https only'')
                        else if isPrivateHostname B (hostname parsed)
                        then Rejected 400 (js ''private host is not allowed'')
                        else Fetch (href parsed))))"

text \<open>
  What the loop of \<open>fallbackAnalyze\<close> keeps true of its \<open>Map\<close>: the keys are pairwise
  different, every stored name is non-empty, and an entry whose name is not the default
  name has a price and the key built from its own name and price.
\<close>

definition keyed :: "'n builtins \<Rightarrow> 'n plansMap \<Rightarrow> bool" where
  "keyed B m \<longleftrightarrow>
     distinct (map fst m)
     \<and> (\<forall>e \<in> set m. planName (snd e) \<noteq> []
          \<and> (planName (snd e) \<noteq> defaultPlanName \<longrightarrow>
               (\<exists>n. priceMonthlyYen (snd e) = Some n
                    \<and> fst e = planName (snd e) @ js ''-'' @ numToString B n)))"

section \<open>Built-ins on plain text\<close>

text \<open>
  What the built-ins compute on text that is already in normal form and has no capital
  letters outside ASCII, and on integers below \<open>2^53\<close>; used to run the definitions on
  concrete inputs. The reading of JSON texts is an argument.
\<close>

definition asciiLower :: "nat \<Rightarrow> nat" where
  "asciiLower c = (if 0x41 \<le> c \<and> c \<le> 0x5A then c + 0x20 else c)"

definition decimalValue :: "jstring \<Rightarrow> nat" where
  "decimalValue ds = foldl (\<lambda>a d. 10 * a + (d - 0x30)) 0 ds"

fun decimalDigits :: "nat \<Rightarrow> jstring" where
  "decimalDigits n = (if n < 10 then [0x30 + n] else decimalDigits (n div 10) @ [0x30 + n mod 10])"

fun groupThousands :: "jstring \<Rightarrow> jstring" where
  "groupThousands (a # b # c # d # ds) = a # b # c # 0x2C # groupThousands (d # ds)"
| "groupThousands ds = ds"

text \<open>
  Script=Han, Script=Hiragana and Script=Katakana as code ranges, in version 15.1 of
  the standard. An engine built with a later version has more code points in these
  scripts; the examples below use characters that are in the table of every version
  since the scripts were encoded (U+16FF0 since version 13.0).
\<close>

definition cjkRanges :: "(nat \<times> nat) list" where
  "cjkRanges =
    [(0x2E80, 0x2E99), (0x2E9B, 0x2EF3), (0x2F00, 0x2FD5), (0x3005, 0x3005), (0x3007, 0x3007),
     (0x3021, 0x3029), (0x3038, 0x303B), (0x3400, 0x4DBF), (0x4E00, 0x9FFF), (0xF900, 0xFA6D),
     (0xFA70, 0xFAD9), (0x16FE2, 0x16FE3), (0x16FF0, 0x16FF1), (0x20000, 0x2A6DF),
     (0x2A700, 0x2B739), (0x2B740, 0x2B81D), (0x2B820, 0x2CEA1), (0x2CEB0, 0x2EBE0),
     (0x2EBF0, 0x2EE5D), (0x2F800, 0x2FA1D), (0x30000, 0x3134A), (0x31350, 0x323AF),
     (0x3041, 0x3096), (0x309D, 0x309F), (0x1B001, 0x1B11F), (0x1B132, 0x1B132),
     (0x1B150, 0x1B152), (0x1F200, 0x1F200),
     (0x30A1, 0x30FA), (0x30FD, 0x30FF), (0x31F0, 0x31FF), (0x32D0, 0x32FE), (0x3300, 0x3357),
     (0xFF66, 0xFF6F), (0xFF71, 0xFF9D), (0x1AFF0, 0x1AFF3), (0x1AFF5, 0x1AFFB),
     (0x1AFFD, 0x1AFFE), (0x1B000, 0x1B000), (0x1B120, 0x1B122), (0x1B155, 0x1B155),
     (0x1B164, 0x1B167)]"

definition plainBuiltins :: "(jstring \<Rightarrow> nat json option) \<Rightarrow> nat builtins" where
  "plainBuiltins parse = \<lparr>normalizeNFKC = (\<lambda>s. s), toLowerCase = map asciiLower,
     toNumber = decimalValue, numToString = decimalDigits,
     toLocaleString = (\<lambda>n. rev (groupThousands (rev (decimalDigits n)))),
     parseJSON = parse, cjkScript = in_ranges cjkRanges\<rparr>"

definition noJSON :: "jstring \<Rightarrow> nat json option" where
  "noJSON raw = None"

section \<open>Concrete inputs\<close>

text \<open>
  The text of the pricing scenario: U+30D7 U+30E9 U+30F3 \<open>A 3,000\<close> U+5186 \<open>/\<close> U+6708,
  a space, and the same with \<open>B 5,000\<close>.
\<close>

definition planScenarioText :: jstring where
  "planScenarioText = [0x30D7, 0x30E9, 0x30F3, 0x41, 0x20, 0x33, 0x2C, 0x30, 0x30, 0x30, 0x5186,
     0x2F, 0x6708, 0x20, 0x30D7, 0x30E9, 0x30F3, 0x42, 0x20, 0x35, 0x2C, 0x30, 0x30, 0x30, 0x5186,
     0x2F, 0x6708]"

text \<open>A personal source with a blob, and a page state that shows it.\<close>

definition sampleSource :: "nat SourceItem" where
  "sampleSource =
     \<lparr>sourceId = js ''doc1'', sourceName = js ''a.pdf'', sourceText = js ''hello world'',
      sourceSummary = Some (js ''greeting''), pricingPlans = Some [],
      storagePath = Some (js ''users/u1/documents/1-a.pdf''),
      inheritedFromDocumentId = Some [], createdAt = None\<rparr>"

definition sampleHome :: "nat home" where
  "sampleHome =
     \<lparr>authUser = Some (js ''u1''), activeChat = Personal,
      teams = [\<lparr>teamId = js ''t1'', teamName = js ''Sales'', memberUids = [js ''u1'']\<rparr>],
      selectedChatId = Some (js ''c1''), selectedKnowledge = None, question = js ''hi'',
      sending = False, globalSources = [sampleSource], sources = [sampleSource]\<rparr>"

text \<open>The URL parser on the address of the URL scenario.\<close>

definition sampleParse :: "jstring \<Rightarrow> parsedUrl option" where
  "sampleParse raw =
     (if raw = js ''http://10.0.0.5/page''
      then Some \<lparr>protocol = js ''http:'', hostname = js ''10.0.0.5'',
                 href = js ''http://10.0.0.5/page''\<rparr>
      else None)"

text \<open>
  A second source, whose text shares the word \<open>hello\<close> with the first; and a source
  with a stored plan (\<open>Basic\<close> at 1000) but no text.
\<close>

definition sampleSource2 :: "nat SourceItem" where
  "sampleSource2 =
     \<lparr>sourceId = js ''doc2'', sourceName = js ''b.pdf'', sourceText = js ''hello there'',
      sourceSummary = Some [], pricingPlans = Some [],
      storagePath = Some (js ''users/u1/documents/2-b.pdf''),
      inheritedFromDocumentId = Some [], createdAt = None\<rparr>"

definition blankPricedSource :: "nat SourceItem" where
  "blankPricedSource =
     \<lparr>sourceId = js ''doc3'', sourceName = js ''c.pdf'', sourceText = [],
      sourceSummary = Some [],
      pricingPlans = Some [\<lparr>planName = js ''Basic'', priceMonthlyYen = Some 1000, planNote = []\<rparr>],
      storagePath = Some [], inheritedFromDocumentId = Some [], createdAt = None\<rparr>"

text \<open>
  An answer of the remote model: the JSON text of a summary \<open>s\<close> and nine times the
  plan \<open>A\<close> at 1, and the value \<open>JSON.parse\<close> reads from it (\<open>0x22\<close> is the double
  quote).
\<close>

definition quoted :: "string \<Rightarrow> jstring" where
  "quoted s = [0x22] @ js s @ [0x22]"

definition samplePlanText :: jstring where
  "samplePlanText =
     js ''{'' @ quoted ''name'' @ js '':'' @ quoted ''A'' @ js '','' @ quoted ''priceMonthlyYen''
     @ js '':1}''"

definition sampleModelOutput :: jstring where
  "sampleModelOutput =
     js ''{'' @ quoted ''summary'' @ js '':'' @ quoted ''s'' @ js '','' @ quoted ''plans'' @ js '':[''
     @ intersperse (js '','') (replicate 9 samplePlanText) @ js '']}''"

definition sampleModelJSON :: "nat json" where
  "sampleModelJSON =
     JObj [(js ''summary'', JStr (js ''s'')),
           (js ''plans'', JArr (replicate 9
              (JObj [(js ''name'', JStr (js ''A'')), (js ''priceMonthlyYen'', JNum 1)])))]"

definition readSample :: "jstring \<Rightarrow> nat json option" where
  "readSample raw = (if raw = sampleModelOutput then Some sampleModelJSON else None)"

definition samplePlan :: "nat PricingPlan" where
  "samplePlan = \<lparr>planName = js ''A'', priceMonthlyYen = Some 1, planNote = []\<rparr>"

definition sampleAnalyzeEnv :: "nat analyzeEnv" where
  "sampleAnalyzeEnv =
     \<lparr>requestBody = Some (JObj [(js ''fileName'', JStr (js ''a.pdf'')), (js ''text'', JStr (js ''x''))]),
      apiKey = Some (js ''key''), remoteModel = OutputText sampleModelOutput\<rparr>"





text \<open>
  A text with two prices of 100: the first after a comma and a space, the second after
  the name U+30D7 U+30E9 U+30F3.
\<close>

definition blankNameText :: jstring where
  "blankNameText = [0x2C, 0x20, 0x31, 0x30, 0x30, 0x5186, 0x2F, 0x6708, 0x20, 0x30D7, 0x30E9,
     0x30F3, 0x20, 0x31, 0x30, 0x30, 0x5186, 0x2F, 0x6708]"




section \<open>Running the matcher\<close>

text \<open>
  The defining equations of \<open>rmatch\<close> recurse under a \<open>\<lambda>\<close>, where the simplifier would
  unfold them for ever; these equations compute the same lists step by step.
\<close>

declare rmatch.simps [simp del]

declare decimalDigits.simps [simp del]

lemma thenMatch_Nil: "thenMatch b [] = []"
  by (simp add: thenMatch_def)

lemma thenMatch_Cons:
  "thenMatch b ((c1, s1) # ms) = map (\<lambda>(c2, s2). (c1 @ c2, s2)) (rmatch b s1) @ thenMatch b ms"
  by (simp add: thenMatch_def)

lemma thenRepeat_Nil: "thenRepeat m n a s [] = []"
  by (simp add: thenRepeat_def)

lemma thenRepeat_Cons:
  "thenRepeat m n a s ((c1, s1) # ms) =
     (if length s1 < length s
      then map (\<lambda>(c2, s2). (c1 @ c2, s2)) (rmatch (Rep (m - 1) (map_option (\<lambda>k. k - 1) n) a) s1)
      else []) @ thenRepeat m n a s ms"
  by (simp add: thenRepeat_def)

lemma rmatch_Cls_Nil: "rmatch (Cls rs) [] = []"
  by (simp add: rmatch.simps)

lemma rmatch_Cls_Cons:
  "rmatch (Cls rs) (c # t) = (if in_ranges rs c then [([], t)] else [])"
  by (simp add: rmatch.simps)

lemma rmatch_Seq: "rmatch (Seq a b) s = thenMatch b (rmatch a s)"
  by (simp add: rmatch.simps thenMatch_def)

lemma rmatch_Alt: "rmatch (Alt a b) s = rmatch a s @ rmatch b s"
  by (simp add: rmatch.simps)

lemma rmatch_Cap:
  "rmatch (Cap a) s = map (\<lambda>(c, s'). (take (length s - length s') s # c, s')) (rmatch a s)"
  by (simp add: rmatch.simps)

lemma rmatch_Rep:
  "rmatch (Rep m n a) s =
     (if n = Some 0 then [([], s)]
      else thenRepeat m n a s (rmatch a s) @ (if m = 0 then [([], s)] else []))"
  by (subst rmatch.simps) (simp add: thenRepeat_def)

lemmas matcher = thenMatch_Nil thenMatch_Cons thenRepeat_Nil thenRepeat_Cons rmatch_Cls_Nil
  rmatch_Cls_Cons rmatch_Seq rmatch_Alt rmatch_Cap rmatch_Rep

lemmas class_defs = in_ranges_def ws_ranges_def isSpace_def isCJK_def isSurrogate_def
  cjkRanges_def isHighSurrogate_def isLowSurrogate_def

lemmas regex_defs = Chr_def Opt_def Star_def Plus_def reSpace_def reDigit_def

lemmas text_defs = sanitizeText_def sanitizeExtractedText_def trim_def js_def

section \<open>Matches consume input; the plan loop ends\<close>

lemma in_thenMatch:
  "(c, rest) \<in> set (thenMatch b ms) \<longleftrightarrow>
     (\<exists>c1 s1 c2. (c1, s1) \<in> set ms \<and> (c2, rest) \<in> set (rmatch b s1) \<and> c = c1 @ c2)"
  unfolding thenMatch_def by force

lemma in_thenRepeat:
  "(c, rest) \<in> set (thenRepeat m n a s ms) \<longleftrightarrow>
     (\<exists>c1 s1 c2. (c1, s1) \<in> set ms \<and> length s1 < length s
        \<and> (c2, rest) \<in> set (rmatch (Rep (m - 1) (map_option (\<lambda>k. k - 1) n) a) s1) \<and> c = c1 @ c2)"
  unfolding thenRepeat_def by (force split: if_splits)

lemma rmatch_RepE:
  assumes "(c, rest) \<in> set (rmatch (Rep m n a) s)"
  obtains (zero) "n = Some 0" "rest = s"
    | (stop) "m = 0" "rest = s"
    | (iter) c1 s1 c2 where "n \<noteq> Some 0" "(c1, s1) \<in> set (rmatch a s)" "length s1 < length s"
        "(c2, rest) \<in> set (rmatch (Rep (m - 1) (map_option (\<lambda>k. k - 1) n) a) s1)"
proof -
  from assms have "(c, rest) \<in> set (if n = Some 0 then [([], s)]
      else thenRepeat m n a s (rmatch a s) @ (if m = 0 then [([], s)] else []))"
    by (simp only: rmatch_Rep)
  then show thesis
    by (auto simp: in_thenRepeat split: if_splits intro: zero stop iter)
qed

lemma rmatch_length_le:
  "(c, rest) \<in> set (rmatch r s) \<Longrightarrow> length rest \<le> length s"
proof (induction r s arbitrary: c rest rule: rmatch.induct)
  case (1 rs s)
  then show ?case by (cases s) (auto simp: rmatch_Cls_Nil rmatch_Cls_Cons split: if_splits)
next
  case (2 a b s)
  from "2.prems" obtain c1 s1 c2 where
    m1: "(c1, s1) \<in> set (rmatch a s)" and m2: "(c2, rest) \<in> set (rmatch b s1)"
    by (auto simp: rmatch_Seq in_thenMatch)
  from "2.IH"(1)[OF m1] "2.IH"(2)[OF m1 refl m2] show ?case by simp
next
  case (3 a b s)
  then show ?case by (auto simp: rmatch_Alt)
next
  case (4 a s)
  then show ?case by (auto simp: rmatch_Cap)
next
  case (5 m n a s)
  from "5.prems" show ?case
  proof (cases rule: rmatch_RepE)
    case zero
    then show ?thesis by simp
  next
    case stop
    then show ?thesis by simp
  next
    case (iter c1 s1 c2)
    from "5.IH"(2)[OF iter(1) iter(2) refl iter(3) iter(4)] iter(3) show ?thesis by simp
  qed
qed

lemma rmatch_Rep_consumes:
  assumes "0 < m" "n \<noteq> Some 0" "(c, rest) \<in> set (rmatch (Rep m n a) s)"
  shows "length rest < length s"
  using assms(3)
proof (cases rule: rmatch_RepE)
  case zero
  with assms show ?thesis by simp
next
  case stop
  with assms show ?thesis by simp
next
  case (iter c1 s1 c2)
  from rmatch_length_le[OF iter(4)] iter(3) show ?thesis by simp
qed

lemma search_some:
  "search r s = Some (c, rest) \<Longrightarrow> \<exists>s'. suffix s' s \<and> (c, rest) \<in> set (rmatch r s')"
proof (induction s)
  case Nil
  then show ?case by (auto split: list.splits)
next
  case (Cons x xs)
  show ?case
  proof (cases "rmatch r (x # xs)")
    case Nil
    with Cons.prems have "search r xs = Some (c, rest)" by simp
    from Cons.IH[OF this] show ?thesis by (auto intro: suffix_ConsI)
  next
    case (Cons m ms)
    with Cons.prems have "(c, rest) \<in> set (rmatch r (x # xs))" by simp
    then show ?thesis by blast
  qed
qed

lemma planRegex_consumes:
  assumes "(c, rest) \<in> set (rmatch planRegex s)"
  shows "length rest < length s"
proof -
  obtain tl where pr: "planRegex = Seq (Cap (Rep 1 (Some 20) planNameClass)) tl"
    by (simp add: planRegex_def)
  from assms obtain c1 s1 c2 where
    m1: "(c1, s1) \<in> set (rmatch (Cap (Rep 1 (Some 20) planNameClass)) s)"
    and m2: "(c2, rest) \<in> set (rmatch tl s1)"
    unfolding pr by (auto simp: rmatch_Seq in_thenMatch)
  from m1 obtain c0 where "(c0, s1) \<in> set (rmatch (Rep 1 (Some 20) planNameClass) s)"
    by (auto simp: rmatch_Cap)
  then have "length s1 < length s" by (rule rmatch_Rep_consumes[rotated 2]) simp_all
  with rmatch_length_le[OF m2] show ?thesis by simp
qed

declare planLoop.simps [simp del]

lemma planLoop_returns: "planLoop B s m \<noteq> None"
proof (induction B s m rule: planLoop.induct)
  case (1 B s m)
  show ?case
  proof (cases "search planRegex s")
    case None
    then show ?thesis by (simp add: planLoop.simps[of B s m])
  next
    case (Some found)
    obtain caps rest where f: "found = (caps, rest)" by (cases found)
    from search_some[OF Some[unfolded f]] obtain s' where
      "suffix s' s" "(caps, rest) \<in> set (rmatch planRegex s')" by blast
    then have lt: "length rest < length s"
      using planRegex_consumes suffix_length_le by fastforce
    from "1.IH"[OF Some f[symmetric] lt] Some f lt show ?thesis
      by (simp add: planLoop.simps[of B s m])
  qed
qed

section \<open>The analysis route on concrete requests\<close>

text \<open>
  Claim C1. The scenario text, sent with no credential configured, is answered by the
  local fallback. The claim expects the two plans A at 3000 and B at 5000. The amount
  pattern \<open>[0-9]{2,6}(?:,[0-9]{3})*\<close> needs two digits before the first comma, so
  \<open>3,000\<close> and \<open>5,000\<close> do not match anywhere and the plan list is empty. (The summary
  has lost the space between U+6708 and U+30D7, both CJK.)
\<close>

theorem plan_scenario_yields_no_plans:
  "analyzePOST (plainBuiltins noJSON)
     \<lparr>requestBody = Some (JObj [(js ''fileName'', JStr (js ''plans.pdf'')),
                                 (js ''text'', JStr planScenarioText)]),
      apiKey = None, remoteModel = Throws\<rparr>
   = Some (AnalyzeJson 200
       \<lparr>summary = [0x30D7, 0x30E9, 0x30F3, 0x41, 0x20, 0x33, 0x2C, 0x30, 0x30, 0x30, 0x5186, 0x2F,
          0x6708, 0x30D7, 0x30E9, 0x30F3, 0x42, 0x20, 0x35, 0x2C, 0x30, 0x30, 0x30, 0x5186, 0x2F, 0x6708],
        plans = []\<rparr>)"
  by (simp add: analyzePOST_def bodyText_def getProp_def respondFallback_def fallbackAnalyze_def
      planLoop.simps plainBuiltins_def planScenarioText_def planRegex_def planNameClass_def
      text_defs class_defs regex_defs matcher)

lemma rmatch_planRegex_Nil: "rmatch planRegex [] = []"
  by (simp add: planRegex_def planNameClass_def regex_defs matcher)

text \<open>
  Claim C5, as the code has it. When the normalized text is empty, \<open>fallbackAnalyze\<close>
  by itself returns the sentinel summary and no plans, but the route handler never gets
  that far: it answers the request with status 400 and the error \<open>text is required\<close>,
  whatever the file name, the credential and the remote model are.
\<close>

theorem empty_text_is_rejected:
  assumes "requestBody env = Some body" "body \<noteq> JNull"
    and "getProp body (js ''text'') = Some (JStr t)"
    and "sanitizeText B t = []"
  shows "fallbackAnalyze B t = Some \<lparr>summary = noSummaryText, plans = []\<rparr>
     \<and> analyzePOST B env = Some (ErrorJson 400 (js ''text is required''))"
proof
  show "fallbackAnalyze B t = Some \<lparr>summary = noSummaryText, plans = []\<rparr>"
    using assms(4) by (simp add: fallbackAnalyze_def planLoop.simps[of B "[]"] rmatch_planRegex_Nil)
  show "analyzePOST B env = Some (ErrorJson 400 (js ''text is required''))"
    using assms by (cases body) (simp_all add: analyzePOST_def bodyText_def)
qed

theorem empty_text_is_rejected_witness:
  "fallbackAnalyze (plainBuiltins noJSON) (js '' '') = Some \<lparr>summary = noSummaryText, plans = []\<rparr>
   \<and> analyzePOST (plainBuiltins noJSON)
        \<lparr>requestBody = Some (JObj [(js ''fileName'', JStr (js ''scan.pdf'')),
                                    (js ''text'', JStr (js '' ''))]),
         apiKey = None, remoteModel = Throws\<rparr>
       = Some (ErrorJson 400 (js ''text is required''))"
  using empty_text_is_rejected[of
      "\<lparr>requestBody = Some (JObj [(js ''fileName'', JStr (js ''scan.pdf'')),
                                    (js ''text'', JStr (js '' ''))]),
         apiKey = None, remoteModel = Throws\<rparr>"
      "JObj [(js ''fileName'', JStr (js ''scan.pdf'')), (js ''text'', JStr (js '' ''))]"
      "js '' ''" "plainBuiltins noJSON"]
  by (simp add: getProp_def plainBuiltins_def text_defs class_defs)

text \<open>
  Claim C5 as stated fails: a request whose text is one space, with no credential, is
  not answered with the sentinel summary but with status 400.
\<close>

theorem blank_text_answers_400:
  "analyzePOST (plainBuiltins noJSON)
     \<lparr>requestBody = Some (JObj [(js ''fileName'', JStr (js ''scan.pdf'')),
                                 (js ''text'', JStr (js '' ''))]),
      apiKey = None, remoteModel = Throws\<rparr>
   = Some (ErrorJson 400 (js ''text is required''))"
  by (simp add: analyzePOST_def bodyText_def getProp_def plainBuiltins_def text_defs class_defs)

section \<open>The knowledge store\<close>

lemma js_nonempty [simp]: "js (c # cs) \<noteq> []"
  by (simp add: js_def)

text \<open>
  Claim C3. When the deletion goes ahead (a user is signed in, the dialog is confirmed,
  and in team scope a chat is selected), \<open>handleDeleteSource\<close> asks the blob store to
  delete \<open>p\<close> if and only if \<open>p\<close> is the non-empty storage path of the source and the
  scope is personal, or it is team and the source has no \<open>inheritedFromDocumentId\<close>
  (absent or empty). So deleting an inherited team copy never touches a blob.
\<close>

theorem delete_removes_blob_iff:
  assumes "authUser st = Some uid" "confirmed env"
    and "isTeam (activeChat st) \<longrightarrow> truthy (selectedChatId st)"
  shows "DeleteObject p \<in> set (snd (handleDeleteSource env st source)) \<longleftrightarrow>
     storagePath source = Some p \<and> p \<noteq> []
     \<and> (activeChat st = Personal
        \<or> (isTeam (activeChat st) \<and> \<not> truthy (inheritedFromDocumentId source)))"
  using assms
  by (cases "activeChat st"; cases "storagePath source")
     (auto simp: handleDeleteSource_def Let_def isTeam_def truthy_def)

theorem delete_removes_blob_iff_witness:
  "DeleteObject (js ''users/u1/documents/1-a.pdf'')
     \<in> set (snd (handleDeleteSource \<lparr>confirmed = True, objectDeleted = True, documentDeleted = True\<rparr>
                   sampleHome sampleSource))
   \<and> DeleteObject (js ''users/u1/documents/1-a.pdf'')
     \<notin> set (snd (handleDeleteSource \<lparr>confirmed = True, objectDeleted = True, documentDeleted = True\<rparr>
                   (sampleHome\<lparr>activeChat := Team (js ''t1'')\<rparr>)
                   (sampleSource\<lparr>inheritedFromDocumentId := Some (js ''doc0'')\<rparr>)))"
  using delete_removes_blob_iff[of sampleHome "js ''u1''"
      "\<lparr>confirmed = True, objectDeleted = True, documentDeleted = True\<rparr>"
      "js ''users/u1/documents/1-a.pdf''" sampleSource]
    delete_removes_blob_iff[of "sampleHome\<lparr>activeChat := Team (js ''t1'')\<rparr>" "js ''u1''"
      "\<lparr>confirmed = True, objectDeleted = True, documentDeleted = True\<rparr>"
      "js ''users/u1/documents/1-a.pdf''" "sampleSource\<lparr>inheritedFromDocumentId := Some (js ''doc0'')\<rparr>"]
  by (simp add: sampleHome_def sampleSource_def isTeam_def truthy_def)

lemma copyAll_done:
  "snd (copyAll env coll k xs) \<Longrightarrow>
     fst (copyAll env coll k xs) = map (\<lambda>x. AddDocument coll (inheritedCopy x)) xs"
  by (induction xs arbitrary: k) (auto simp: Let_def split: if_splits)

lemma copyAll_stored:
  "(\<And>j. j < length xs \<Longrightarrow> copyStored env (k + j)) \<Longrightarrow>
     copyAll env coll k xs = (map (\<lambda>x. AddDocument coll (inheritedCopy x)) xs, True)"
proof (induction xs arbitrary: k)
  case Nil
  then show ?case by simp
next
  case (Cons x xs)
  from Cons.prems[of 0] have h: "copyStored env k" by simp
  have "\<And>j. j < length xs \<Longrightarrow> copyStored env (Suc k + j)"
    using Cons.prems[of "Suc j" for j] by simp
  from Cons.IH[of "Suc k", OF this] h show ?case by (simp add: Let_def)
qed

text \<open>
  Claim C6. When a user is signed in, a team is selected, the new chat is created with
  id \<open>T\<close> and every copy is written, \<open>createTeamChatWithInheritance\<close> returns \<open>T\<close>,
  selects the new chat, and its writes are exactly these, in this order: the new team
  chat, and then, for every personal source \<open>A\<close> whose id was selected, in the order of
  the personal sources, a document in the document sub-collection of \<open>T\<close> with the
  name, text, summary, pricing plans and storage path of \<open>A\<close> (an absent optional field
  is written as empty) and with \<open>inheritedFromDocumentId\<close> the id of \<open>A\<close>. Conversely,
  whenever the call returns an id \<open>T\<close>, the chat \<open>T\<close> was created and the copy of every
  selected source is among the writes.
\<close>

theorem inherit_copies_selected_sources:
  "(authUser st = Some uid \<and> selectedTeam st = Some team \<and> createdTeamChatId env = Some T
      \<and> (\<forall>k < length (filter (\<lambda>source. sourceId source \<in> set sourceIds) (globalSources st)).
            copyStored env k)
    \<longrightarrow> createTeamChatWithInheritance env st sourceIds =
          (st\<lparr>selectedChatId := Some T\<rparr>,
           AddChat (UserChats uid) (js ''team'') (teamId team) (teamName team)
           # map (\<lambda>A. AddDocument (ChatDocuments uid T)
                    \<lparr>copyName = sourceName A, copyText = sourceText A,
                     copySummary = (case sourceSummary A of None \<Rightarrow> [] | Some t \<Rightarrow> t),
                     copyPricingPlans = (case pricingPlans A of None \<Rightarrow> [] | Some ps \<Rightarrow> ps),
                     copyStoragePath = (case storagePath A of None \<Rightarrow> [] | Some p \<Rightarrow> p),
                     copyInheritedFromDocumentId = sourceId A\<rparr>)
               (filter (\<lambda>source. sourceId source \<in> set sourceIds) (globalSources st)),
           Some T))
   \<and> (createTeamChatWithInheritance env st sourceIds = (st', calls, Some T')
        \<and> A \<in> set (globalSources st) \<and> sourceId A \<in> set sourceIds
    \<longrightarrow> (\<exists>uid'. authUser st = Some uid' \<and> createdTeamChatId env = Some T'
          \<and> AddDocument (ChatDocuments uid' T')
               \<lparr>copyName = sourceName A, copyText = sourceText A,
                copySummary = (case sourceSummary A of None \<Rightarrow> [] | Some t \<Rightarrow> t),
                copyPricingPlans = (case pricingPlans A of None \<Rightarrow> [] | Some ps \<Rightarrow> ps),
                copyStoragePath = (case storagePath A of None \<Rightarrow> [] | Some p \<Rightarrow> p),
                copyInheritedFromDocumentId = sourceId A\<rparr> \<in> set calls))"
proof (intro conjI impI)
  let ?targets = "filter (\<lambda>source. sourceId source \<in> set sourceIds) (globalSources st)"
  assume h: "authUser st = Some uid \<and> selectedTeam st = Some team \<and> createdTeamChatId env = Some T
      \<and> (\<forall>k < length ?targets. copyStored env k)"
  then have "\<And>j. j < length ?targets \<Longrightarrow> copyStored env (0 + j)" by simp
  from copyAll_stored[of ?targets env 0 "ChatDocuments uid T", OF this]
  have c: "copyAll env (ChatDocuments uid T) 0 ?targets
      = (map (\<lambda>x. AddDocument (ChatDocuments uid T) (inheritedCopy x)) ?targets, True)" .
  from h show "createTeamChatWithInheritance env st sourceIds =
          (st\<lparr>selectedChatId := Some T\<rparr>,
           AddChat (UserChats uid) (js ''team'') (teamId team) (teamName team)
           # map (\<lambda>A. AddDocument (ChatDocuments uid T)
                    \<lparr>copyName = sourceName A, copyText = sourceText A,
                     copySummary = (case sourceSummary A of None \<Rightarrow> [] | Some t \<Rightarrow> t),
                     copyPricingPlans = (case pricingPlans A of None \<Rightarrow> [] | Some ps \<Rightarrow> ps),
                     copyStoragePath = (case storagePath A of None \<Rightarrow> [] | Some p \<Rightarrow> p),
                     copyInheritedFromDocumentId = sourceId A\<rparr>) ?targets,
           Some T)"
    by (simp add: createTeamChatWithInheritance_def Let_def c inheritedCopy_def)
next
  let ?targets = "filter (\<lambda>source. sourceId source \<in> set sourceIds) (globalSources st)"
  assume a: "createTeamChatWithInheritance env st sourceIds = (st', calls, Some T')
        \<and> A \<in> set (globalSources st) \<and> sourceId A \<in> set sourceIds"
  then have r: "createTeamChatWithInheritance env st sourceIds = (st', calls, Some T')" by simp
  from r obtain uid' team' where u: "authUser st = Some uid'" and t: "selectedTeam st = Some team'"
    by (auto simp: createTeamChatWithInheritance_def split: option.splits)
  from r u t have c: "createdTeamChatId env = Some T'"
    by (auto simp: createTeamChatWithInheritance_def Let_def split: option.splits if_splits)
  from r u t c have ok: "snd (copyAll env (ChatDocuments uid' T') 0 ?targets)"
    and calls: "calls = AddChat (UserChats uid') (js ''team'') (teamId team') (teamName team')
                  # fst (copyAll env (ChatDocuments uid' T') 0 ?targets)"
    by (auto simp: createTeamChatWithInheritance_def Let_def split: if_splits)
  from a have "A \<in> set ?targets" by simp
  then have "AddDocument (ChatDocuments uid' T') (inheritedCopy A) \<in> set calls"
    unfolding calls copyAll_done[OF ok] by simp
  with u c show "\<exists>uid'. authUser st = Some uid' \<and> createdTeamChatId env = Some T'
          \<and> AddDocument (ChatDocuments uid' T')
               \<lparr>copyName = sourceName A, copyText = sourceText A,
                copySummary = (case sourceSummary A of None \<Rightarrow> [] | Some t \<Rightarrow> t),
                copyPricingPlans = (case pricingPlans A of None \<Rightarrow> [] | Some ps \<Rightarrow> ps),
                copyStoragePath = (case storagePath A of None \<Rightarrow> [] | Some p \<Rightarrow> p),
                copyInheritedFromDocumentId = sourceId A\<rparr> \<in> set calls"
    by (simp add: inheritedCopy_def)
qed

text \<open>
  Two of three personal sources are selected: the writes are the new chat and the two
  copies, in the order of the personal sources; the source that was not selected is
  not copied.
\<close>

theorem inherit_copies_selected_sources_witness:
  "createTeamChatWithInheritance
      \<lparr>createdTeamChatId = Some (js ''c9''), copyStored = (\<lambda>k. True)\<rparr>
      (sampleHome\<lparr>activeChat := Team (js ''t1''),
                  globalSources := [sampleSource, blankPricedSource, sampleSource2]\<rparr>)
      [js ''doc2'', js ''doc1'']
   = (sampleHome\<lparr>activeChat := Team (js ''t1''),
                  globalSources := [sampleSource, blankPricedSource, sampleSource2],
                  selectedChatId := Some (js ''c9'')\<rparr>,
      [AddChat (UserChats (js ''u1'')) (js ''team'') (js ''t1'') (js ''Sales''),
       AddDocument (ChatDocuments (js ''u1'') (js ''c9''))
          \<lparr>copyName = js ''a.pdf'', copyText = js ''hello world'',
           copySummary = js ''greeting'', copyPricingPlans = [],
           copyStoragePath = js ''users/u1/documents/1-a.pdf'',
           copyInheritedFromDocumentId = js ''doc1''\<rparr>,
       AddDocument (ChatDocuments (js ''u1'') (js ''c9''))
          \<lparr>copyName = js ''b.pdf'', copyText = js ''hello there'',
           copySummary = [], copyPricingPlans = [],
           copyStoragePath = js ''users/u1/documents/2-b.pdf'',
           copyInheritedFromDocumentId = js ''doc2''\<rparr>],
      Some (js ''c9''))"
proof -
  let ?env = "\<lparr>createdTeamChatId = Some (js ''c9''), copyStored = (\<lambda>k. True)\<rparr>"
  let ?st = "sampleHome\<lparr>activeChat := Team (js ''t1''),
                  globalSources := [sampleSource, blankPricedSource, sampleSource2]\<rparr>"
  have a: "authUser ?st = Some (js ''u1'')" by (simp add: sampleHome_def)
  have t: "selectedTeam ?st
      = Some \<lparr>teamId = js ''t1'', teamName = js ''Sales'', memberUids = [js ''u1'']\<rparr>"
    by (simp add: selectedTeam_def sampleHome_def)
  have f: "filter (\<lambda>source. sourceId source \<in> set [js ''doc2'', js ''doc1'']) (globalSources ?st)
      = [sampleSource, sampleSource2]"
    by (simp add: sampleSource_def sampleSource2_def blankPricedSource_def js_def)
  from inherit_copies_selected_sources[of ?st "js ''u1''"
      "\<lparr>teamId = js ''t1'', teamName = js ''Sales'', memberUids = [js ''u1'']\<rparr>" ?env "js ''c9''"
      "[js ''doc2'', js ''doc1'']"] a t
  show ?thesis unfolding f by (simp add: sampleSource_def sampleSource2_def)
qed

section \<open>Asking with no sources\<close>

text \<open>
  Claim C2, as the code has it. \<open>buildAssistantReply\<close> answers an empty source list with
  the fixed upload-first message, for every question. But \<open>handleAsk\<close> calls the chat
  route first, also when there is no source: with a user signed in, a question, a
  selected chat and every write succeeding, it stores the question, sends the request
  with the empty source list, and stores as the reply what the route answered; the
  fixed message is the reply only when that call throws or returns the empty string.
\<close>

theorem ask_with_no_sources:
  assumes "sources st = []" and "authUser st = Some uid" and "trim (question st) \<noteq> []"
    and "\<not> sending st" and "selectedChatId st = Some cid" and "cid \<noteq> []"
    and "userMessageStored env" and "assistantMessageStored env" and "chatTouched env"
  shows "buildAssistantReply B q [] = uploadFirstText
     \<and> snd (handleAsk B env st) =
         [AddMessage (ChatMessages uid cid) User (trim (question st)),
          FetchChatApi (trim (question st)) None []]
         @ (if chatReply env = None then [LogError (js ''chat-api'')] else [])
         @ [AddMessage (ChatMessages uid cid) Assistant
              (case chatReply env of
                 None \<Rightarrow> uploadFirstText
               | Some reply \<Rightarrow> if reply = [] then uploadFirstText else reply),
            TouchChat (UserChats uid) cid]"
proof -
  have b: "\<And>q. buildAssistantReply B q [] = uploadFirstText"
    by (simp add: buildAssistantReply_def)
  from assms(1) have s: "selectedSource st = None"
    by (simp add: selectedSource_def split: option.splits)
  from assms s b show ?thesis
    by (simp add: handleAsk_def ensureActiveChatId_def truthy_def assistantReplyOf_def Let_def
        split: option.splits)
qed

theorem ask_with_no_sources_witness:
  "buildAssistantReply (plainBuiltins noJSON) (js ''hi'') [] = uploadFirstText
   \<and> snd (handleAsk (plainBuiltins noJSON)
        \<lparr>createdChatId = None, userMessageStored = True, chatReply = None,
         assistantMessageStored = True, chatTouched = True, fallbackMessageStored = True\<rparr>
        (sampleHome\<lparr>globalSources := [], sources := []\<rparr>))
      = [AddMessage (ChatMessages (js ''u1'') (js ''c1'')) User (js ''hi''),
         FetchChatApi (js ''hi'') None [],
         LogError (js ''chat-api''),
         AddMessage (ChatMessages (js ''u1'') (js ''c1'')) Assistant uploadFirstText,
         TouchChat (UserChats (js ''u1'')) (js ''c1'')]"
  using ask_with_no_sources[of "sampleHome\<lparr>globalSources := [], sources := []\<rparr>" "js ''u1''"
      "js ''c1''"
      "\<lparr>createdChatId = None, userMessageStored = True, chatReply = None,
         assistantMessageStored = True, chatTouched = True, fallbackMessageStored = True\<rparr>"
      "plainBuiltins noJSON" "js ''hi''"]
  by (simp add: sampleHome_def text_defs class_defs)

text \<open>
  Claim C2 as stated fails: with no sources at all, \<open>handleAsk\<close> still issues the
  request to the chat route, and what comes back (here \<open>Hello!\<close>) is stored as the
  reply instead of the fixed message.
\<close>

theorem ask_without_sources_calls_chat_api:
  "snd (handleAsk (plainBuiltins noJSON)
        \<lparr>createdChatId = None, userMessageStored = True, chatReply = Some (js ''Hello!''),
         assistantMessageStored = True, chatTouched = True, fallbackMessageStored = True\<rparr>
        (sampleHome\<lparr>globalSources := [], sources := []\<rparr>))
   = [AddMessage (ChatMessages (js ''u1'') (js ''c1'')) User (js ''hi''),
      FetchChatApi (js ''hi'') None [],
      AddMessage (ChatMessages (js ''u1'') (js ''c1'')) Assistant (js ''Hello!''),
      TouchChat (UserChats (js ''u1'')) (js ''c1'')]"
  by (simp add: handleAsk_def ensureActiveChatId_def assistantReplyOf_def selectedSource_def
      sampleHome_def truthy_def Let_def text_defs class_defs)

section \<open>The URL route\<close>

lemma private172_matches:
  assumes "16 \<le> b" "b \<le> 31" "prefix (js ''172.'' @ decimalDigits b @ js ''.'') host"
  shows "rmatch private172Regex host \<noteq> []"
proof -
  from assms(3) obtain r where h: "host = js ''172.'' @ decimalDigits b @ js ''.'' @ r"
    by (auto simp: prefix_def)
  from assms(1,2) have "b = 16 \<or> b = 17 \<or> b = 18 \<or> b = 19 \<or> b = 20 \<or> b = 21 \<or> b = 22 \<or> b = 23
      \<or> b = 24 \<or> b = 25 \<or> b = 26 \<or> b = 27 \<or> b = 28 \<or> b = 29 \<or> b = 30 \<or> b = 31"
    by arith
  then show ?thesis unfolding h
    by (elim disjE)
       (simp_all add: private172Regex_def js_def in_ranges_def regex_defs matcher decimalDigits.simps)
qed

lemma isPrivateHostname_iff:
  "isPrivateHostname B h \<longleftrightarrow>
     (let host = toLowerCase B h
      in host = js ''localhost'' \<or> suffix (js ''.local'') host \<or> host = js ''0.0.0.0''
         \<or> prefix (js ''127.'') host \<or> prefix (js ''10.'') host \<or> prefix (js ''192.168.'') host
         \<or> rmatch private172Regex host \<noteq> [])"
  by (simp add: isPrivateHostname_def Let_def)

text \<open>
  Claim C9. For a request whose \<open>url\<close> parses, the handler answers with status 400,
  and so without requesting anything, whenever the scheme is not \<open>http:\<close> or \<open>https:\<close>
  (error \<open>http/https only\<close>) or the lower-cased host name is \<open>localhost\<close> or
  \<open>0.0.0.0\<close>, ends in \<open>.local\<close>, or starts with \<open>127.\<close>, \<open>10.\<close>, \<open>192.168.\<close> or
  \<open>172.b.\<close> with \<open>b\<close> from 16 to 31 (error \<open>private host is not allowed\<close>).
\<close>

theorem private_or_non_http_url_is_rejected:
  assumes "request = Some body" "body \<noteq> JNull"
    and "trim (stringOrEmpty B (getProp body (js ''url''))) \<noteq> []"
    and "parseUrl (trim (stringOrEmpty B (getProp body (js ''url'')))) = Some parsed"
    and "host = toLowerCase B (hostname parsed)"
    and "protocol parsed \<notin> {js ''http:'', js ''https:''}
       \<or> host = js ''localhost'' \<or> host = js ''0.0.0.0'' \<or> suffix (js ''.local'') host
       \<or> prefix (js ''127.'') host \<or> prefix (js ''10.'') host \<or> prefix (js ''192.168.'') host
       \<or> (\<exists>b. 16 \<le> b \<and> b \<le> 31 \<and> prefix (js ''172.'' @ decimalDigits b @ js ''.'') host)"
  shows "urlPOST B parseUrl request =
     Rejected 400 (if protocol parsed \<notin> {js ''http:'', js ''https:''}
                   then js ''http/https only'' else js ''private host is not allowed'')"
proof (cases "protocol parsed \<in> {js ''http:'', js ''https:''}")
  case False
  with assms(1-4) show ?thesis
    by (cases body) (simp_all add: urlPOST_def Let_def)
next
  case True
  have "isPrivateHostname B (hostname parsed)"
  proof (cases "\<exists>b. 16 \<le> b \<and> b \<le> 31 \<and> prefix (js ''172.'' @ decimalDigits b @ js ''.'') host")
    case True
    then obtain b where "16 \<le> b" "b \<le> 31" "prefix (js ''172.'' @ decimalDigits b @ js ''.'') host"
      by blast
    then have "rmatch private172Regex host \<noteq> []" by (rule private172_matches)
    then show ?thesis by (simp add: isPrivateHostname_iff Let_def assms(5)[symmetric])
  next
    case False
    with assms(6) \<open>protocol parsed \<in> {js ''http:'', js ''https:''}\<close>
    have "host = js ''localhost'' \<or> host = js ''0.0.0.0'' \<or> suffix (js ''.local'') host
       \<or> prefix (js ''127.'') host \<or> prefix (js ''10.'') host \<or> prefix (js ''192.168.'') host"
      by blast
    then show ?thesis unfolding isPrivateHostname_iff Let_def assms(5)[symmetric] by blast
  qed
  with True assms(1-4) show ?thesis
    by (cases body) (simp_all add: urlPOST_def Let_def)
qed

theorem private_or_non_http_url_is_rejected_witness:
  "urlPOST (plainBuiltins noJSON) sampleParse (Some (JObj [(js ''url'', JStr (js ''http://10.0.0.5/page''))]))
     = Rejected 400 (js ''private host is not allowed'')"
  using private_or_non_http_url_is_rejected[of
      "Some (JObj [(js ''url'', JStr (js ''http://10.0.0.5/page''))])"
      "JObj [(js ''url'', JStr (js ''http://10.0.0.5/page''))]"
      "plainBuiltins noJSON" sampleParse
      "\<lparr>protocol = js ''http:'', hostname = js ''10.0.0.5'', href = js ''http://10.0.0.5/page''\<rparr>"
      "js ''10.0.0.5''"]
  by (simp add: sampleParse_def getProp_def stringOrEmpty_def plainBuiltins_def asciiLower_def
      text_defs class_defs)

section \<open>The answer engine\<close>

lemma scoreSource_fold:
  "fst (foldl (hitStep n) acc tokens) =
     fst acc + int (length (filter (\<lambda>token. indexOf n token \<ge> 0) tokens))"
  by (induction tokens arbitrary: acc) (auto simp: hitStep_def Let_def)

lemma scoreSource_overlap:
  "fst (scoreSource (normalizeText B (sourceText source)) tokens) = tokenOverlap B tokens source"
  by (simp add: scoreSource_def scoreSource_fold tokenOverlap_def)

lemma considerSource_cases:
  "considerSource B tokens best source =
     (if usable B source \<and> bestScore best < tokenOverlap B tokens source
      then \<lparr>bestSource = Some source, bestScore = tokenOverlap B tokens source,
            bestSnippet = snippetOf (sourceText source)
              (snd (scoreSource (normalizeText B (sourceText source)) tokens))\<rparr>
      else best)"
  by (simp add: considerSource_def Let_def usable_def scoreSource_overlap)

lemma tokenOverlap_nonneg: "0 \<le> tokenOverlap B tokens source"
  by (simp add: tokenOverlap_def)

lemma pickBest_snoc:
  "pickBest B tokens (xs @ [x]) = considerSource B tokens (pickBest B tokens xs) x"
  by (simp add: pickBest_def)

lemma ahead_new:
  assumes "\<forall>y \<in> set xs. usable B y \<longrightarrow> tokenOverlap B tokens y < tokenOverlap B tokens x"
  shows "ahead B tokens x xs []"
  using assms by (simp add: ahead_def)

lemma ahead_later:
  assumes "ahead B tokens b earlier later"
    and "usable B x \<longrightarrow> tokenOverlap B tokens x \<le> tokenOverlap B tokens b"
  shows "ahead B tokens b earlier (later @ [x])"
  using assms by (simp add: ahead_def)

lemma ahead_less:
  assumes "ahead B tokens b earlier later" "tokenOverlap B tokens b < tokenOverlap B tokens x"
    and "y \<in> set (earlier @ b # later)" "usable B y"
  shows "tokenOverlap B tokens y < tokenOverlap B tokens x"
proof -
  from assms(3) consider "y \<in> set earlier" | "y = b" | "y \<in> set later" by auto
  then show ?thesis
  proof cases
    case 1
    with assms(1,4) have "tokenOverlap B tokens y < tokenOverlap B tokens b" by (simp add: ahead_def)
    with assms(2) show ?thesis by simp
  next
    case 2
    with assms(2) show ?thesis by simp
  next
    case 3
    with assms(1,4) have "tokenOverlap B tokens y \<le> tokenOverlap B tokens b" by (simp add: ahead_def)
    with assms(2) show ?thesis by simp
  qed
qed

lemma picked_None:
  "bestSource best = None \<Longrightarrow> picked B tokens cands best \<longleftrightarrow>
     bestScore best = - 1 \<and> (\<forall>y \<in> set cands. \<not> usable B y)"
  by (simp add: picked_def)

lemma picked_Some:
  "bestSource best = Some b \<Longrightarrow> picked B tokens cands best \<longleftrightarrow>
     usable B b \<and> bestScore best = tokenOverlap B tokens b
     \<and> (\<exists>earlier later. cands = earlier @ b # later \<and> ahead B tokens b earlier later)"
  by (simp add: picked_def)

lemma picked_step:
  assumes "picked B tokens xs best"
  shows "picked B tokens (xs @ [x]) (considerSource B tokens best x)"
proof (cases "usable B x \<and> bestScore best < tokenOverlap B tokens x")
  case True
  have all: "\<forall>y \<in> set xs. usable B y \<longrightarrow> tokenOverlap B tokens y < tokenOverlap B tokens x"
  proof (cases "bestSource best")
    case None
    with assms show ?thesis by (simp add: picked_None)
  next
    case (Some b)
    with assms obtain earlier later where
      s: "xs = earlier @ b # later" and sc: "bestScore best = tokenOverlap B tokens b"
      and a: "ahead B tokens b earlier later"
      unfolding picked_Some[OF Some] by blast
    from True sc have "tokenOverlap B tokens b < tokenOverlap B tokens x" by simp
    with a show ?thesis unfolding s using ahead_less by blast
  qed
  let ?new = "\<lparr>bestSource = Some x, bestScore = tokenOverlap B tokens x,
      bestSnippet = snippetOf (sourceText x) (snd (scoreSource (normalizeText B (sourceText x)) tokens))\<rparr>"
  from True have new: "considerSource B tokens best x = ?new"
    by (simp add: considerSource_cases)
  have "xs @ [x] = xs @ x # [] \<and> ahead B tokens x xs []"
    using ahead_new[OF all] by simp
  then have "\<exists>earlier later. xs @ [x] = earlier @ x # later \<and> ahead B tokens x earlier later"
    by blast
  with True show ?thesis unfolding new by (simp add: picked_def)
next
  case False
  then have same: "considerSource B tokens best x = best"
    unfolding considerSource_cases by auto
  show ?thesis
  proof (cases "bestSource best")
    case None
    with assms have "bestScore best = - 1" "\<forall>y \<in> set xs. \<not> usable B y"
      by (simp_all add: picked_None)
    moreover from this(1) False tokenOverlap_nonneg[of B tokens x] have "\<not> usable B x"
      by auto
    ultimately show ?thesis unfolding same by (simp add: picked_None[OF None])
  next
    case (Some b)
    with assms obtain earlier later where
      u: "usable B b" and s: "xs = earlier @ b # later"
      and sc: "bestScore best = tokenOverlap B tokens b"
      and a: "ahead B tokens b earlier later"
      unfolding picked_Some[OF Some] by blast
    from False sc have "usable B x \<longrightarrow> tokenOverlap B tokens x \<le> tokenOverlap B tokens b"
      by auto
    from ahead_later[OF a this] have "xs @ [x] = earlier @ b # (later @ [x])
        \<and> ahead B tokens b earlier (later @ [x])"
      by (simp add: s)
    then have "\<exists>e l. xs @ [x] = e @ b # l \<and> ahead B tokens b e l" by blast
    with u sc show ?thesis unfolding same picked_Some[OF Some] by simp
  qed
qed

lemma pickBest_picked: "picked B tokens cands (pickBest B tokens cands)"
proof (induction cands rule: rev_induct)
  case Nil
  then show ?case by (simp add: pickBest_def picked_def)
next
  case (snoc x xs)
  then show ?case unfolding pickBest_snoc by (rule picked_step)
qed

lemmas page_defs = normalizeText_def usable_def tokenOverlap_def pickBest_def considerSource_def
  scoreSource_def hitStep_def snippetOf_def sliceText_def questionTokens_def

lemmas page_defs2 = buildAssistantReply_def structuredPlansOf_def dedupePlans_def planKey_def
  priceLine_def generalReply_def extractPriceLines_def priceQuestionRegex_def uniqueInOrder_def

lemma generalReply_names:
  assumes "bestSource (pickBest B tokens cands) = Some b"
  shows "\<exists>rest. generalReply B tokens cands = sourceName b @ overviewInfix @ rest
           \<or> generalReply B tokens cands = referPrefix @ sourceName b @ referSuffix @ rest"
  using assms by (auto simp: generalReply_def Let_def)

text \<open>
  Claim C7, as the code has it. The loop of the general branch scores the candidates
  whose normalized text is not empty and skips the others. When at least one candidate
  is scored, a source \<open>b\<close> is selected and the reply names it: \<open>b\<close> is a scored
  candidate, every scored candidate before it in the list has a strictly smaller token
  overlap and every scored candidate after it has at most the overlap of \<open>b\<close>. So of
  the scored candidates that tie for the highest overlap the earliest is selected, for
  every question and every candidate list. When no candidate is scored, none is
  selected and the reply is the no-usable-text message.
\<close>

theorem earliest_scored_source_wins_ties:
  "(if \<exists>y \<in> set cands. usable B y
    then \<exists>b earlier later.
           bestSource (pickBest B tokens cands) = Some b
         \<and> bestScore (pickBest B tokens cands) = tokenOverlap B tokens b
         \<and> usable B b \<and> cands = earlier @ b # later
         \<and> (\<forall>y \<in> set earlier. usable B y \<longrightarrow> tokenOverlap B tokens y < tokenOverlap B tokens b)
         \<and> (\<forall>y \<in> set later. usable B y \<longrightarrow> tokenOverlap B tokens y \<le> tokenOverlap B tokens b)
         \<and> (\<exists>rest. generalReply B tokens cands = sourceName b @ overviewInfix @ rest
               \<or> generalReply B tokens cands = referPrefix @ sourceName b @ referSuffix @ rest)
    else bestSource (pickBest B tokens cands) = None
         \<and> generalReply B tokens cands = noUsableText)"
proof (cases "bestSource (pickBest B tokens cands)")
  case None
  with pickBest_picked[of B tokens cands] have "\<forall>y \<in> set cands. \<not> usable B y"
    by (simp add: picked_None)
  with None show ?thesis by (simp add: generalReply_def)
next
  case (Some b)
  with pickBest_picked[of B tokens cands] obtain earlier later where
    u: "usable B b" and sc: "bestScore (pickBest B tokens cands) = tokenOverlap B tokens b"
    and s: "cands = earlier @ b # later" and a: "ahead B tokens b earlier later"
    unfolding picked_Some[OF Some] by blast
  from s u have ex: "\<exists>y \<in> set cands. usable B y" by auto
  from a have
    e: "\<forall>y \<in> set earlier. usable B y \<longrightarrow> tokenOverlap B tokens y < tokenOverlap B tokens b"
    and l: "\<forall>y \<in> set later. usable B y \<longrightarrow> tokenOverlap B tokens y \<le> tokenOverlap B tokens b"
    by (simp_all add: ahead_def)
  from Some sc u s e l generalReply_names[OF Some]
  have "\<exists>b earlier later.
           bestSource (pickBest B tokens cands) = Some b
         \<and> bestScore (pickBest B tokens cands) = tokenOverlap B tokens b
         \<and> usable B b \<and> cands = earlier @ b # later
         \<and> (\<forall>y \<in> set earlier. usable B y \<longrightarrow> tokenOverlap B tokens y < tokenOverlap B tokens b)
         \<and> (\<forall>y \<in> set later. usable B y \<longrightarrow> tokenOverlap B tokens y \<le> tokenOverlap B tokens b)
         \<and> (\<exists>rest. generalReply B tokens cands = sourceName b @ overviewInfix @ rest
               \<or> generalReply B tokens cands = referPrefix @ sourceName b @ referSuffix @ rest)"
    by blast
  with ex show ?thesis by (simp only: if_True)
qed

text \<open>
  Four candidates for the token \<open>hello\<close>: a source without text, the two sources that
  both contain the word once, and the first of them again. The first of the two is
  selected, and the reply refers to it.
\<close>

theorem earliest_scored_source_wins_ties_witness:
  "tokenOverlap (plainBuiltins noJSON) [js ''hello''] sampleSource2
     = tokenOverlap (plainBuiltins noJSON) [js ''hello''] sampleSource
   \<and> bestSource (pickBest (plainBuiltins noJSON) [js ''hello'']
        [blankPricedSource, sampleSource2, sampleSource, sampleSource2]) = Some sampleSource2
   \<and> (\<exists>rest. generalReply (plainBuiltins noJSON) [js ''hello'']
                [blankPricedSource, sampleSource2, sampleSource, sampleSource2]
        = referPrefix @ js ''b.pdf'' @ referSuffix @ rest)"
proof -
  let ?B = "plainBuiltins noJSON"
  let ?cands = "[blankPricedSource, sampleSource2, sampleSource, sampleSource2]"
  have t: "tokenOverlap ?B [js ''hello''] sampleSource2 = 1"
    "tokenOverlap ?B [js ''hello''] sampleSource = 1"
    by (simp_all add: page_defs plainBuiltins_def sampleSource_def sampleSource2_def asciiLower_def
        text_defs class_defs)
  have u: "\<not> usable ?B blankPricedSource" "usable ?B sampleSource2" "usable ?B sampleSource"
    by (simp_all add: page_defs plainBuiltins_def sampleSource_def sampleSource2_def
        blankPricedSource_def asciiLower_def text_defs class_defs)
  have n: "sampleSource \<noteq> sampleSource2" "blankPricedSource \<noteq> sampleSource2"
    "blankPricedSource \<noteq> sampleSource"
    by (simp_all add: sampleSource_def sampleSource2_def blankPricedSource_def js_def)
  from u have ex: "\<exists>y \<in> set ?cands. usable ?B y" by simp
  from earliest_scored_source_wins_ties[of ?cands ?B "[js ''hello'']"] ex
  have "\<exists>b earlier later.
           bestSource (pickBest ?B [js ''hello''] ?cands) = Some b
         \<and> bestScore (pickBest ?B [js ''hello''] ?cands) = tokenOverlap ?B [js ''hello''] b
         \<and> usable ?B b \<and> ?cands = earlier @ b # later
         \<and> (\<forall>y \<in> set earlier. usable ?B y \<longrightarrow>
               tokenOverlap ?B [js ''hello''] y < tokenOverlap ?B [js ''hello''] b)
         \<and> (\<forall>y \<in> set later. usable ?B y \<longrightarrow>
               tokenOverlap ?B [js ''hello''] y \<le> tokenOverlap ?B [js ''hello''] b)
         \<and> (\<exists>rest. generalReply ?B [js ''hello''] ?cands = sourceName b @ overviewInfix @ rest
               \<or> generalReply ?B [js ''hello''] ?cands = referPrefix @ sourceName b @ referSuffix @ rest)"
    by (simp only: if_True)
  then obtain b earlier later where
    b: "bestSource (pickBest ?B [js ''hello''] ?cands) = Some b" and ub: "usable ?B b"
    and s: "?cands = earlier @ b # later"
    and e: "\<forall>y \<in> set earlier. usable ?B y \<longrightarrow> tokenOverlap ?B [js ''hello''] y < tokenOverlap ?B [js ''hello''] b"
    by (elim exE conjE) (rule that; assumption)
  have "b = sampleSource2"
  proof (rule ccontr)
    assume nb: "b \<noteq> sampleSource2"
    from s have "b \<in> set ?cands" by (metis in_set_conv_decomp)
    with nb ub u(1) have bs: "b = sampleSource" by auto
    with s n have "sampleSource2 \<in> set earlier"
      by (cases earlier; cases "tl earlier"; cases "tl (tl earlier)") auto
    with e u(2) t bs show False by auto
  qed
  moreover have "sourceSummary sampleSource2 = Some []" "sourceName sampleSource2 = js ''b.pdf''"
    by (simp_all add: sampleSource2_def)
  ultimately show ?thesis using t b
    by (simp add: generalReply_def Let_def)
qed

text \<open>
  Claim C7 as stated, for every candidate list, fails for a candidate that is not
  scored: the question \<open>zzz\<close> occurs in neither source, so the source without text and
  the source after it both have token overlap 0, and the later one is selected.
\<close>

theorem earlier_unscored_source_loses_tie:
  "tokenOverlap (plainBuiltins noJSON) (questionTokens (plainBuiltins noJSON) (js ''zzz''))
      blankPricedSource
     = tokenOverlap (plainBuiltins noJSON) (questionTokens (plainBuiltins noJSON) (js ''zzz''))
         sampleSource2
   \<and> bestSource (pickBest (plainBuiltins noJSON)
        (questionTokens (plainBuiltins noJSON) (js ''zzz'')) [blankPricedSource, sampleSource2])
     = Some sampleSource2
   \<and> buildAssistantReply (plainBuiltins noJSON) (js ''zzz'') [blankPricedSource, sampleSource2]
     = referPrefix @ js ''b.pdf'' @ referSuffix @ js ''hello there''"
proof -
  let ?B = "plainBuiltins noJSON"
  have q: "questionTokens ?B (js ''zzz'') = [js ''zzz'']"
    by (simp add: questionTokens_def normalizeText_def plainBuiltins_def asciiLower_def
        text_defs class_defs)
  have t: "tokenOverlap ?B [js ''zzz''] blankPricedSource = 0"
    "tokenOverlap ?B [js ''zzz''] sampleSource2 = 0"
    by (simp_all add: page_defs plainBuiltins_def blankPricedSource_def sampleSource2_def
        asciiLower_def text_defs class_defs)
  have b: "pickBest ?B [js ''zzz''] [blankPricedSource, sampleSource2]
      = \<lparr>bestSource = Some sampleSource2, bestScore = 0, bestSnippet = js ''hello there''\<rparr>"
    by (simp add: page_defs plainBuiltins_def blankPricedSource_def sampleSource2_def
        asciiLower_def text_defs class_defs Let_def)
  have p: "\<not> regexTest priceQuestionRegex (js ''zzz'')"
    by (simp add: regexTest_def priceQuestionRegex_def js_def regex_defs matcher in_ranges_def)
  have r: "buildAssistantReply ?B (js ''zzz'') [blankPricedSource, sampleSource2]
      = generalReply ?B [js ''zzz''] [blankPricedSource, sampleSource2]"
    using p by (simp add: buildAssistantReply_def Let_def q)
  have n: "sourceSummary sampleSource2 = Some []" "sourceName sampleSource2 = js ''b.pdf''"
    by (simp_all add: sampleSource2_def)
  show ?thesis unfolding q r t by (simp add: generalReply_def b n)
qed

lemma generalReply_cases:
  "(if \<forall>y \<in> set cands. \<not> usable B y then generalReply B tokens cands = noUsableText
    else \<exists>b \<in> set cands. \<exists>rest. generalReply B tokens cands = sourceName b @ overviewInfix @ rest
           \<or> generalReply B tokens cands = referPrefix @ sourceName b @ referSuffix @ rest)"
proof (cases "bestSource (pickBest B tokens cands)")
  case None
  with pickBest_picked[of B tokens cands] have "\<forall>y \<in> set cands. \<not> usable B y"
    by (simp add: picked_None)
  with None show ?thesis by (simp add: generalReply_def)
next
  case (Some b)
  with pickBest_picked[of B tokens cands] obtain earlier later where
    u: "usable B b" and s: "cands = earlier @ b # later"
    unfolding picked_Some[OF Some] by blast
  then have "b \<in> set cands" by simp
  moreover have "\<exists>rest. generalReply B tokens cands = sourceName b @ overviewInfix @ rest
           \<or> generalReply B tokens cands = referPrefix @ sourceName b @ referSuffix @ rest"
    using Some by (auto simp: generalReply_def Let_def)
  ultimately show ?thesis using u by auto
qed

lemma generalReply_nonempty: "generalReply B tokens cands \<noteq> []"
  using generalReply_cases[of cands B tokens]
  by (auto simp: noUsableText_def overviewInfix_def referPrefix_def split: if_splits)

text \<open>
  Claim C10, as the code has it. \<open>buildAssistantReply\<close> is a total function and its
  result is never the empty string. No candidates: the upload-first message. Otherwise,
  when the question is a price question and the candidates carry stored plans or price
  lines: a block that starts with the price header. Otherwise, when no candidate has a
  normalized text that is not empty: the no-usable-text message. Otherwise a summary
  line or a snippet reference of one of the candidates.
\<close>

theorem reply_is_never_empty:
  "buildAssistantReply B q cands \<noteq> []
   \<and> (cands = [] \<longrightarrow> buildAssistantReply B q cands = uploadFirstText)
   \<and> (cands \<noteq> [] \<and> hasPriceAnswer B q cands \<longrightarrow>
        prefix priceInfoHeader (buildAssistantReply B q cands))
   \<and> (cands \<noteq> [] \<and> \<not> hasPriceAnswer B q cands \<and> (\<forall>y \<in> set cands. \<not> usable B y) \<longrightarrow>
        buildAssistantReply B q cands = noUsableText)
   \<and> (cands \<noteq> [] \<and> \<not> hasPriceAnswer B q cands \<and> (\<exists>y \<in> set cands. usable B y) \<longrightarrow>
        (\<exists>b \<in> set cands. \<exists>rest.
           buildAssistantReply B q cands = sourceName b @ overviewInfix @ rest
           \<or> buildAssistantReply B q cands = referPrefix @ sourceName b @ referSuffix @ rest))"
proof (cases "cands = []")
  case True
  then show ?thesis by (simp add: buildAssistantReply_def uploadFirstText_def)
next
  case False
  show ?thesis
  proof (cases "hasPriceAnswer B q cands")
    case True
    with False have "\<exists>rest. buildAssistantReply B q cands = priceInfoHeader @ rest"
      by (auto simp: buildAssistantReply_def hasPriceAnswer_def Let_def)
    then obtain rest where "buildAssistantReply B q cands = priceInfoHeader @ rest" ..
    with True False show ?thesis by (simp add: priceInfoHeader_def)
  next
    case nop: False
    with False have g: "buildAssistantReply B q cands = generalReply B (questionTokens B q) cands"
      by (auto simp: buildAssistantReply_def hasPriceAnswer_def Let_def)
    from generalReply_cases[of cands B "questionTokens B q"] generalReply_nonempty[of B "questionTokens B q" cands]
    show ?thesis using False nop unfolding g by (auto split: if_splits)
  qed
qed

theorem reply_is_never_empty_witness:
  "buildAssistantReply (plainBuiltins noJSON) (js ''hello'') [] = uploadFirstText
   \<and> buildAssistantReply (plainBuiltins noJSON) (js ''hello'') [sampleSource2] \<noteq> []
   \<and> (\<exists>b \<in> set [sampleSource2]. \<exists>rest.
           buildAssistantReply (plainBuiltins noJSON) (js ''hello'') [sampleSource2]
             = sourceName b @ overviewInfix @ rest
           \<or> buildAssistantReply (plainBuiltins noJSON) (js ''hello'') [sampleSource2]
             = referPrefix @ sourceName b @ referSuffix @ rest)"
proof -
  have p: "\<not> hasPriceAnswer (plainBuiltins noJSON) (js ''hello'') [sampleSource2]"
    by (simp add: hasPriceAnswer_def regexTest_def priceQuestionRegex_def js_def regex_defs matcher
        in_ranges_def)
  have u: "usable (plainBuiltins noJSON) sampleSource2"
    by (simp add: page_defs plainBuiltins_def sampleSource2_def asciiLower_def text_defs class_defs)
  from reply_is_never_empty[of "plainBuiltins noJSON" "js ''hello''" "[]"]
    reply_is_never_empty[of "plainBuiltins noJSON" "js ''hello''" "[sampleSource2]"] p u
  show ?thesis by simp
qed

text \<open>
  Claim C10 as stated fails where it says that candidates whose texts are all empty
  yield the no-usable-text message: for a price question (U+6599 U+91D1) and one
  candidate with an empty text and a stored plan, the reply is the price block.
\<close>

theorem price_block_for_blank_sources:
  "sourceText blankPricedSource = []
   \<and> buildAssistantReply (plainBuiltins noJSON) [0x6599, 0x91D1] [blankPricedSource]
       = priceInfoHeader @ js ''Basic: 1,000'' @ yenPerMonthText
   \<and> buildAssistantReply (plainBuiltins noJSON) [0x6599, 0x91D1] [blankPricedSource] \<noteq> noUsableText"
  by (simp add: page_defs page_defs2 blankPricedSource_def plainBuiltins_def regexTest_def
      decimalDigits.simps js_def regex_defs matcher in_ranges_def priceInfoHeader_def
      yenPerMonthText_def noUsableText_def Let_def)

section \<open>The plan lists of the analysis route\<close>

lemma safeParse_names:
  assumes "safeParseAnalyze B raw = Some r" "p \<in> set (plans r)"
  shows "planName p \<noteq> []"
proof -
  from assms(1) obtain ps where "plans r = filter (\<lambda>plan. length (planName plan) > 0) ps"
    by (auto simp: safeParseAnalyze_def split: option.splits json.splits)
  with assms(2) show ?thesis by auto
qed

lemma mapHas_iff: "mapHas m k \<longleftrightarrow> k \<in> fst ` set m"
  by (induction m) (auto simp: mapHas_def)

lemma mapSet_new: "\<not> mapHas m k \<Longrightarrow> mapSet m k v = m @ [(k, v)]"
  by (induction m) (auto simp: mapHas_def)

lemma defaultPlanName_nonempty: "defaultPlanName \<noteq> []"
  by (simp add: defaultPlanName_def)

lemma keyed_planStep:
  assumes "keyed B m"
  shows "keyed B (planStep B caps m)"
proof -
  define name where "name = collapseSpaces (trim (capture caps 0))"
  define price where "price = toNumber B (filter (\<lambda>c. c \<noteq> 0x2C) (capture caps 1))"
  define key where "key = name @ js ''-'' @ numToString B price"
  define v where "v = \<lparr>planName = (if name = [] then defaultPlanName else name),
      priceMonthlyYen = Some price, planNote = []\<rparr>"
  have step: "planStep B caps m = (if \<not> mapHas m key then mapSet m key v else m)"
    by (simp add: planStep_def Let_def name_def price_def key_def v_def)
  show ?thesis
  proof (cases "mapHas m key")
    case True
    with assms step show ?thesis by simp
  next
    case False
    then have new: "planStep B caps m = m @ [(key, v)]"
      by (simp add: step mapSet_new)
    have nm: "planName v \<noteq> []"
      by (simp add: v_def defaultPlanName_nonempty)
    have ky: "planName v \<noteq> defaultPlanName \<longrightarrow>
        (\<exists>n. priceMonthlyYen v = Some n \<and> key = planName v @ js ''-'' @ numToString B n)"
      by (auto simp: v_def key_def)
    from False have "key \<notin> fst ` set m" by (simp add: mapHas_iff)
    with assms nm ky show ?thesis unfolding new keyed_def by auto
  qed
qed

lemma keyed_planLoop:
  "planLoop B s m = Some m' \<Longrightarrow> keyed B m \<Longrightarrow> keyed B m'"
proof (induction B s m rule: planLoop.induct)
  case (1 B s m)
  show ?case
  proof (cases "search planRegex s")
    case None
    with "1.prems" show ?thesis by (simp add: planLoop.simps[of B s m])
  next
    case (Some found)
    obtain caps rest where f: "found = (caps, rest)" by (cases found)
    show ?thesis
    proof (cases "length rest < length s")
      case True
      with "1.prems"(1) Some f have "planLoop B rest (planStep B caps m) = Some m'"
        by (simp add: planLoop.simps[of B s m])
      from "1.IH"[OF Some f[symmetric] True this keyed_planStep[OF "1.prems"(2)]] show ?thesis .
    next
      case False
      with "1.prems"(1) Some f show ?thesis by (simp add: planLoop.simps[of B s m])
    qed
  qed
qed

lemma distinct_filter_take:
  "distinct (map h (filter P xs)) \<Longrightarrow> distinct (map h (filter P (take n xs)))"
proof (induction xs arbitrary: n)
  case Nil
  then show ?case by simp
next
  case (Cons x xs)
  show ?case
  proof (cases n)
    case 0
    then show ?thesis by simp
  next
    case (Suc k)
    from Cons.prems have d: "distinct (map h (filter P xs))" by (auto split: if_splits)
    have sub: "set (filter P (take k xs)) \<subseteq> set (filter P xs)"
      by (auto dest: in_set_takeD)
    from Cons.prems have "P x \<Longrightarrow> h x \<notin> h ` set (filter P xs)" by auto
    with sub have "P x \<Longrightarrow> h x \<notin> h ` set (filter P (take k xs))" by blast
    with Cons.IH[OF d, of k] show ?thesis by (simp add: Suc)
  qed
qed

lemma keyed_distinct:
  assumes "keyed B m"
  shows "distinct (map (\<lambda>p. (planName p, priceMonthlyYen p))
           (filter (\<lambda>p. planName p \<noteq> defaultPlanName) (map snd m)))"
proof -
  let ?P = "\<lambda>e. planName (snd e) \<noteq> defaultPlanName"
  let ?h = "\<lambda>p. (planName p, priceMonthlyYen p)"
  let ?g = "\<lambda>x. fst x @ js ''-'' @ (case snd x of None \<Rightarrow> [] | Some n \<Rightarrow> numToString B n)"
  from assms have "distinct (map fst (filter ?P m))"
    by (simp add: keyed_def distinct_map_filter)
  moreover have "map fst (filter ?P m) = map ?g (map (\<lambda>e. ?h (snd e)) (filter ?P m))"
    using assms by (auto simp: keyed_def)
  ultimately have "distinct (map (\<lambda>e. ?h (snd e)) (filter ?P m))"
    by (simp add: distinct_map del: map_map)
  moreover have "map ?h (filter (\<lambda>p. planName p \<noteq> defaultPlanName) (map snd m))
      = map (\<lambda>e. ?h (snd e)) (filter ?P m)"
    by (simp add: filter_map comp_def)
  ultimately show ?thesis by simp
qed

lemma fallbackAnalyze_plans:
  "\<exists>r. fallbackAnalyze B t = Some r \<and> length (plans r) \<le> 8
      \<and> (\<forall>p \<in> set (plans r). planName p \<noteq> [])
      \<and> distinct (map (\<lambda>p. (planName p, priceMonthlyYen p))
           (filter (\<lambda>p. planName p \<noteq> defaultPlanName) (plans r)))"
proof -
  obtain m where m: "planLoop B (sanitizeText B t) [] = Some m"
    using planLoop_returns[of B "sanitizeText B t" "[]"] by auto
  have "keyed B []" by (simp add: keyed_def)
  from keyed_planLoop[OF m this] have k: "keyed B m" .
  let ?r = "\<lparr>summary = (if take 180 (sanitizeText B t) = [] then noSummaryText
                          else take 180 (sanitizeText B t)),
             plans = take 8 (map snd m)\<rparr>"
  have r: "fallbackAnalyze B t = Some ?r"
    by (simp add: fallbackAnalyze_def Let_def m)
  have n: "\<forall>p \<in> set (plans ?r). planName p \<noteq> []"
    using k by (auto simp: keyed_def dest!: in_set_takeD)
  have d: "distinct (map (\<lambda>p. (planName p, priceMonthlyYen p))
           (filter (\<lambda>p. planName p \<noteq> defaultPlanName) (plans ?r)))"
    using distinct_filter_take[OF keyed_distinct[OF k]] by simp
  from r n d show ?thesis by simp
qed

lemma analyzePOST_sources:
  assumes "analyzePOST B env = Some (AnalyzeJson status r)"
  shows "plans r = [] \<or> (\<exists>t. fallbackAnalyze B t = Some r) \<or> (\<exists>raw. safeParseAnalyze B raw = Some r)"
  using assms
  by (auto simp: analyzePOST_def caught_def respondFallback_def Let_def
      split: option.splits json.splits upstream.splits if_splits)

lemma analyzePOST_returns: "analyzePOST B env \<noteq> None"
proof -
  have "\<And>t. respondFallback B t \<noteq> None"
    using fallbackAnalyze_plans by (fastforce simp: respondFallback_def split: option.splits)
  then show ?thesis
    by (auto simp: analyzePOST_def Let_def split: option.splits json.splits upstream.splits if_splits)
qed

lemma replicate_9: "replicate 9 x = [x, x, x, x, x, x, x, x, x]"
  by (simp add: eval_nat_numeral)

lemma sample_answer:
  "analyzePOST (plainBuiltins readSample) sampleAnalyzeEnv
     = Some (AnalyzeJson 200 \<lparr>summary = js ''s'', plans = replicate 9 samplePlan\<rparr>)"
  by (simp add: analyzePOST_def sampleAnalyzeEnv_def bodyText_def getProp_def safeParseAnalyze_def
      readSample_def sampleModelJSON_def samplePlan_def readPlan_def stringOrEmpty_def
      plainBuiltins_def replicate_9 sampleModelOutput_def samplePlanText_def quoted_def
      text_defs class_defs)

text \<open>
  What does hold of the plan lists. The route handler always answers, and no plan list
  it answers with has an entry with an empty name. The list of the local fallback has
  at most 8 entries, and among its entries whose name is not the default name no two
  share both name and price.
\<close>

lemma analysis_plan_lists:
  "analyzePOST B env \<noteq> None
   \<and> (analyzePOST B env = Some (AnalyzeJson status r) \<longrightarrow> (\<forall>p \<in> set (plans r). planName p \<noteq> []))
   \<and> (\<exists>f. fallbackAnalyze B t = Some f \<and> length (plans f) \<le> 8
        \<and> (\<forall>p \<in> set (plans f). planName p \<noteq> [])
        \<and> distinct (map (\<lambda>p. (planName p, priceMonthlyYen p))
             (filter (\<lambda>p. planName p \<noteq> defaultPlanName) (plans f))))"
proof (intro conjI impI)
  show "analyzePOST B env \<noteq> None" by (rule analyzePOST_returns)
  show "\<exists>f. fallbackAnalyze B t = Some f \<and> length (plans f) \<le> 8
        \<and> (\<forall>p \<in> set (plans f). planName p \<noteq> [])
        \<and> distinct (map (\<lambda>p. (planName p, priceMonthlyYen p))
             (filter (\<lambda>p. planName p \<noteq> defaultPlanName) (plans f)))"
    by (rule fallbackAnalyze_plans)
  assume "analyzePOST B env = Some (AnalyzeJson status r)"
  from analyzePOST_sources[OF this] show "\<forall>p \<in> set (plans r). planName p \<noteq> []"
  proof (elim disjE exE)
    assume "plans r = []"
    then show ?thesis by simp
  next
    fix t' assume "fallbackAnalyze B t' = Some r"
    with fallbackAnalyze_plans[of B t'] show ?thesis by auto
  next
    fix raw assume "safeParseAnalyze B raw = Some r"
    then show ?thesis using safeParse_names by blast
  qed
qed

lemma analysis_plan_lists_example:
  "analyzePOST (plainBuiltins readSample) sampleAnalyzeEnv
     = Some (AnalyzeJson 200 \<lparr>summary = js ''s'', plans = replicate 9 samplePlan\<rparr>)
   \<and> list_all (\<lambda>p. planName p \<noteq> []) (replicate 9 samplePlan)
   \<and> (\<exists>f. fallbackAnalyze (plainBuiltins readSample) planScenarioText = Some f \<and> length (plans f) \<le> 8
        \<and> (\<forall>p \<in> set (plans f). planName p \<noteq> [])
        \<and> distinct (map (\<lambda>p. (planName p, priceMonthlyYen p))
             (filter (\<lambda>p. planName p \<noteq> defaultPlanName) (plans f))))"
  using analysis_plan_lists[of "plainBuiltins readSample" sampleAnalyzeEnv 200
      "\<lparr>summary = js ''s'', plans = replicate 9 samplePlan\<rparr>" planScenarioText]
    sample_answer
  by (simp add: list_all_iff)

lemma fallback_default_name_twice:
  "fallbackAnalyze (plainBuiltins noJSON) blankNameText
     = Some \<lparr>summary = [0x2C, 0x20, 0x31, 0x30, 0x30, 0x5186, 0x2F, 0x6708, 0x30D7, 0x30E9, 0x30F3,
                 0x20, 0x31, 0x30, 0x30, 0x5186, 0x2F, 0x6708],
              plans = [\<lparr>planName = defaultPlanName, priceMonthlyYen = Some 100, planNote = []\<rparr>,
                       \<lparr>planName = defaultPlanName, priceMonthlyYen = Some 100, planNote = []\<rparr>]\<rparr>"
  by (simp add: fallbackAnalyze_def planLoop.simps planStep_def capture_def mapHas_def
      decimalValue_def decimalDigits.simps defaultPlanName_def blankNameText_def plainBuiltins_def
      planRegex_def planNameClass_def text_defs class_defs regex_defs matcher Let_def)

text \<open>
  Claim C4: every plan list of the analysis route has no two entries with the same name
  and price, no entry with an empty name, and at most 8 entries. On the code this fails
  on both paths. A list parsed from the remote model's answer is passed on as parsed:
  nine equal plans come back as nine equal plans, though the prompt asks the model for
  no duplicates and at most 8 and the fallback enforces both. And the fallback builds
  its key from the matched name before it replaces a blank name by the default name, so
  a price after a blank name and the same price after the default name give two equal
  entries.
\<close>

theorem plan_lists_keep_duplicates:
  "analyzePOST (plainBuiltins readSample) sampleAnalyzeEnv
     = Some (AnalyzeJson 200 \<lparr>summary = js ''s'', plans = replicate 9 samplePlan\<rparr>)
   \<and> length (replicate 9 samplePlan) > 8
   \<and> \<not> distinct (map (\<lambda>p. (planName p, priceMonthlyYen p)) (replicate 9 samplePlan))
   \<and> (case fallbackAnalyze (plainBuiltins noJSON) blankNameText of
        None \<Rightarrow> False
      | Some r \<Rightarrow> \<not> distinct (map (\<lambda>p. (planName p, priceMonthlyYen p)) (plans r)))"
  using sample_answer by (simp add: replicate_9 fallback_default_name_twice)

section \<open>The text normalizer\<close>
















lemma strip_nonspace: "\<not> isSpace y \<Longrightarrow> stripCjkSpaces B p (y # r) = y # stripCjkSpaces B (y # p) r"
  by simp






































end
